theory Spec2Isabelle
  imports Complex_Main
begin

section \<open>JavaScript numbers as the program uses them\<close>

text \<open>
  Every number the partition driver handles is either the result of \<^verbatim>\<open>parseInt\<close> or an
  integer taken from the caller's payload. \<^verbatim>\<open>parseInt\<close> yields \<^verbatim>\<open>NaN\<close> or an
  integer-valued double, so a number is \<open>NaN\<close> or \<open>Num n\<close> with \<open>n\<close> an integer.
  Negative zero is not told apart from zero: \<^verbatim>\<open><=\<close>, \<^verbatim>\<open>!==\<close> and \<^verbatim>\<open>toString\<close> do not
  tell them apart either. In the chunk planner the division by the power of two
  \<open>CHUNK_SIZE\<close>, \<^verbatim>\<open>Math.floor\<close> and \<^verbatim>\<open>%\<close> are exact on every integer-valued double, and
  \<^verbatim>\<open>++\<close> is reached only with a quotient below \<open>2^53\<close>, where it is exact too. The sum
  \<^verbatim>\<open>pid + 1\<close> of the handler is rounded as a sum of doubles is (\<open>js_plus\<close> below).
\<close>

datatype jsnum = NaN | Num int

datatype error =
    Thrown string            \<comment> \<open>a \<^verbatim>\<open>throw\<close> statement of the program, with the thrown string\<close>
  | TypeError                \<comment> \<open>property access on \<^verbatim>\<open>undefined\<close>\<close>
  | ServiceError string      \<comment> \<open>a rejected call to an external service\<close>

text \<open>\<^verbatim>\<open>a <= b\<close>: false as soon as one side is \<^verbatim>\<open>NaN\<close>.\<close>

fun js_le :: "jsnum \<Rightarrow> jsnum \<Rightarrow> bool" where
  "js_le (Num a) (Num b) = (a \<le> b)"
| "js_le _ _ = False"

text \<open>\<^verbatim>\<open>Math.floor(a / c)\<close> for a positive integer \<open>c\<close>: HOL's \<open>div\<close> on \<open>int\<close> rounds
  towards minus infinity, as \<^verbatim>\<open>Math.floor\<close> of the quotient does.\<close>

fun Math_floor_div :: "jsnum \<Rightarrow> int \<Rightarrow> jsnum" where
  "Math_floor_div (Num a) c = Num (a div c)"
| "Math_floor_div NaN c = NaN"

text \<open>\<^verbatim>\<open>a % c\<close>: the remainder of the truncated division; it has the sign of \<open>a\<close>.\<close>

fun js_rem :: "jsnum \<Rightarrow> int \<Rightarrow> jsnum" where
  "js_rem (Num a) c = Num (sgn a * (\<bar>a\<bar> mod \<bar>c\<bar>))"
| "js_rem NaN c = NaN"

text \<open>\<^verbatim>\<open>a !== 0\<close>: \<^verbatim>\<open>NaN\<close> is different from every number.\<close>

fun js_strict_ne_zero :: "jsnum \<Rightarrow> bool" where
  "js_strict_ne_zero (Num a) = (a \<noteq> 0)"
| "js_strict_ne_zero NaN = True"

text \<open>\<^verbatim>\<open>a++\<close>\<close>

fun js_incr :: "jsnum \<Rightarrow> jsnum" where
  "js_incr (Num a) = Num (a + 1)"
| "js_incr NaN = NaN"

subsection \<open>The sum of two integer-valued doubles\<close>

text \<open>
  A double has a significand of 53 bits. From \<open>2^53\<close> on, two neighbouring doubles are
  \<open>quantum m\<close> apart (2 from \<open>2^53\<close>, 4 from \<open>2^54\<close>, and so on), and an integer is
  rounded to the nearest of them, to the one with the even significand when it lies half
  way. \<^verbatim>\<open>a + b\<close> is the exact sum rounded in this way. (The sums of the program add 1 to a
  double: they stay below the largest double.)
\<close>

fun quantum :: "nat \<Rightarrow> nat" where
  "quantum m = (if m < 2 ^ 53 then 1 else 2 * quantum (m div 2))"

declare quantum.simps [simp del]

definition nearestDouble_nat :: "nat \<Rightarrow> nat" where
  "nearestDouble_nat m =
     (let q = quantum m; significand = m div q; rest = m mod q in
      if 2 * rest < q then significand * q
      else if q < 2 * rest then (significand + 1) * q
      else if even significand then significand * q
      else (significand + 1) * q)"

definition nearestDouble :: "int \<Rightarrow> int" where
  "nearestDouble n =
     (if 0 \<le> n then int (nearestDouble_nat (nat n)) else - int (nearestDouble_nat (nat (- n))))"

definition js_plus :: "int \<Rightarrow> int \<Rightarrow> int" where
  "js_plus a b = nearestDouble (a + b)"

subsection \<open>\<^verbatim>\<open>parseInt\<close> without a radix, and \<^verbatim>\<open>Number.prototype.toString\<close>\<close>

text \<open>
  \<^verbatim>\<open>parseInt(s)\<close>: leading white space is dropped, then an optional sign, then an optional
  \<^verbatim>\<open>0x\<close>/\<^verbatim>\<open>0X\<close> prefix that selects radix 16; the longest run of digits of the radix is
  read and the rest of the string is ignored. No digit at all gives \<^verbatim>\<open>NaN\<close>; nothing is
  ever thrown. The number is the integer that the digits denote (JavaScript has the double
  nearest to it, the same integer up to \<open>2^53\<close>).

  A string is the sequence of the UTF-8 bytes of the JavaScript string. The white space of
  JavaScript is TAB, LF, VT, FF, CR, SP and the characters U+00A0, U+1680, U+2000 to U+200A,
  U+2028, U+2029, U+202F, U+205F, U+3000 and U+FEFF; \<open>whiteSpacePrefix s\<close> is the number of
  bytes of the white space character that \<open>s\<close> starts with, 0 when it starts with none.
\<close>

definition whiteSpacePrefix :: "string \<Rightarrow> nat" where
  "whiteSpacePrefix s =
     (let b = (map of_char s :: nat list) in
      if take 1 b \<in> set [[9], [10], [11], [12], [13], [32]] then 1
      else if take 2 b = [194, 160] then 2
      else if take 3 b = [225, 154, 128] then 3
      else if take 2 b = [226, 128]
              \<and> take 1 (drop 2 b) \<in> set [[128], [129], [130], [131], [132], [133], [134], [135],
                    [136], [137], [138], [168], [169], [175]] then 3
      else if take 3 b \<in> set [[226, 129, 159], [227, 128, 128], [239, 187, 191]] then 3
      else 0)"

function skipWhiteSpace :: "string \<Rightarrow> string" where
  "skipWhiteSpace s =
     (if whiteSpacePrefix s = 0 then s else skipWhiteSpace (drop (whiteSpacePrefix s) s))"
  by pat_completeness auto
termination
proof (relation "measure length")
  show "wf (measure length)"
    by simp
next
  fix s :: string
  assume "whiteSpacePrefix s \<noteq> 0"
  then have "s \<noteq> []" "0 < whiteSpacePrefix s"
    by (auto simp: whiteSpacePrefix_def)
  then show "(drop (whiteSpacePrefix s) s, s) \<in> measure length"
    by simp
qed

declare skipWhiteSpace.simps [simp del]

definition digitValue :: "char \<Rightarrow> nat option" where
  "digitValue c =
     (let k = (of_char c :: nat) in
      if 48 \<le> k \<and> k \<le> 57 then Some (k - 48)
      else if 97 \<le> k \<and> k \<le> 122 then Some (k - 87)
      else if 65 \<le> k \<and> k \<le> 90 then Some (k - 55)
      else None)"

definition radixDigit :: "nat \<Rightarrow> char \<Rightarrow> bool" where
  "radixDigit R c = (case digitValue c of None \<Rightarrow> False | Some d \<Rightarrow> d < R)"

definition digitsValue :: "nat \<Rightarrow> string \<Rightarrow> nat" where
  "digitsValue R Z = foldl (\<lambda>a c. a * R + the (digitValue c)) 0 Z"

definition stripSign :: "string \<Rightarrow> int \<times> string" where
  "stripSign str =
     (if str \<noteq> [] \<and> hd str = CHR ''-'' then (- 1, tl str)
      else if str \<noteq> [] \<and> hd str = CHR ''+'' then (1, tl str)
      else (1, str))"

definition stripPrefix :: "string \<Rightarrow> nat \<times> string" where
  "stripPrefix str =
     (if 2 \<le> length str \<and> hd str = CHR ''0''
         \<and> (hd (tl str) = CHR ''x'' \<or> hd (tl str) = CHR ''X'')
      then (16, tl (tl str))
      else (10, str))"

definition parseInt :: "string \<Rightarrow> jsnum" where
  "parseInt s =
     (let (sign, S1) = stripSign (skipWhiteSpace s);
          (R, S2) = stripPrefix S1;
          Z = takeWhile (radixDigit R) S2
      in if Z = [] then NaN else Num (sign * int (digitsValue R Z)))"

text \<open>\<^verbatim>\<open>n.toString()\<close> of such a number: \<^verbatim>\<open>"NaN"\<close>, or the decimal digits with a minus sign
  for a negative one (the form JavaScript prints below \<open>10^21\<close>).\<close>

definition digitChar :: "nat \<Rightarrow> char" where
  "digitChar d = char_of (48 + d)"

fun decimal :: "nat \<Rightarrow> string" where
  "decimal n = (if n < 10 then [digitChar n] else decimal (n div 10) @ [digitChar (n mod 10)])"

declare decimal.simps [simp del]

fun toString :: "jsnum \<Rightarrow> string" where
  "toString NaN = ''NaN''"
| "toString (Num n) = (if n < 0 then CHR ''-'' # decimal (nat (- n)) else decimal (nat n))"

text \<open>The strings that \<open>decimal\<close> produces: at least one character, all of them decimal
  digits.\<close>

definition decimalDigits :: "string \<Rightarrow> bool" where
  "decimalDigits s \<longleftrightarrow> s \<noteq> [] \<and> (\<forall>c\<in>set s. \<exists>d<10. c = digitChar d)"

section \<open>The chunk planner\<close>

definition CHUNK_SIZE :: int where
  "CHUNK_SIZE = 4 * 1024 * 1024 * 1024"

text \<open>
  \<^verbatim>\<open>
  function calculateNumberOfChunks(sizeInBytes) {
      let numberOfChunks = Math.floor(sizeInBytes / CHUNK_SIZE);
      if (sizeInBytes % CHUNK_SIZE !== 0) {
          numberOfChunks++;
      }
      return numberOfChunks;
  }
  \<close>
  The body has no \<^verbatim>\<open>throw\<close> and calls nothing that throws: every path returns.
\<close>

definition calculateNumberOfChunks :: "jsnum \<Rightarrow> error + jsnum" where
  "calculateNumberOfChunks sizeInBytes =
     (let numberOfChunks = Math_floor_div sizeInBytes CHUNK_SIZE in
      if js_strict_ne_zero (js_rem sizeInBytes CHUNK_SIZE)
      then Inr (js_incr numberOfChunks)
      else Inr numberOfChunks)"

section \<open>Data model\<close>

text \<open>
  One line of the query result. The CSV parser delivers every cell as a string; the
  \<^verbatim>\<open>data\<close> listener of \<^verbatim>\<open>readResultsCSV\<close> replaces \<^verbatim>\<open>size\<close> and \<^verbatim>\<open>row_num\<close> by numbers.
  The type parameter is the type of these two cells. (The column \<^verbatim>\<open>size\<close> is the field
  \<open>size_col\<close>: \<open>size\<close> is a constant of HOL.)
\<close>

record 'n row =
  row_num :: 'n
  size_col :: 'n
  archiveid :: string
  sha256treehash :: string
  archivedescription :: string
  creationdate :: string

text \<open>The item written to the status table, with the attribute names of the program.\<close>

record status_record =
  aid :: string
  jobId :: string
  ifn :: jsnum
  pid :: int
  sha :: string
  sz :: jsnum
  cdt :: string
  descr :: string
  fname :: string
  cc :: jsnum
  rc :: int

text \<open>The invocation payload. The record is extensible: the \<open>more\<close> part stands for
  every field of the caller's object besides the two named here.\<close>

record payload =
  nextPartition :: int
  maxPartition :: int

text \<open>What the program can observe and change outside itself: the items of the status
  table and the archives for which a retrieval job has been started, in order.\<close>

record world =
  table :: "status_record list"
  jobs :: "string list"

datatype attribute_value = N string | S string

record query_result =
  Count :: nat
  LastEvaluatedKey :: "(string \<rightharpoonup> attribute_value) option"

datatype stream_event = Data "string row" | End | StreamError error

text \<open>
  What awaiting a promise gives: its value, the error it is rejected with, nothing at all
  (\<open>Pending\<close>, the promise is never settled), or the end of the process by an exception that
  nothing catches (\<open>Uncaught\<close>: an \<^verbatim>\<open>error\<close> event emitted with no listener for it is thrown
  by the emitter, outside every promise, and the runtime exits with that error).
\<close>

datatype 'a outcome = Resolved 'a | Rejected error | Pending | Uncaught error

text \<open>
  The external collaborators. Each call of the SDK is a function of its arguments (and of
  the world where the service reads it) that answers or is rejected; nothing is assumed
  about the answers. \<open>parseFileName\<close> is the function of \<^verbatim>\<open>lib/filenameparser.js\<close>,
  \<open>moment_format\<close> the clock, \<open>athena_getQueryExecution q i\<close> the answer to the
  \<open>i\<close>-th poll of query \<open>q\<close>, \<open>s3_getObject_stream k\<close> the events that the parsed
  read stream of object \<open>k\<close> emits.
\<close>

record env =
  parseFileName :: "string \<Rightarrow> string \<Rightarrow> string"
  moment_format :: "world \<Rightarrow> string"
  dynamodb_query_max_file_index :: "world \<Rightarrow> int \<Rightarrow> error + query_result"
  dynamodb_query_name_index :: "world \<Rightarrow> string \<Rightarrow> error + query_result"
  dynamodb_putItem :: "world \<Rightarrow> status_record \<Rightarrow> error option"
  glacier_initiateJob :: "world \<Rightarrow> string \<Rightarrow> error + string"
  athena_startQueryExecution :: "int \<Rightarrow> error + string"
  athena_getQueryExecution :: "string \<Rightarrow> nat \<Rightarrow> error + string"
  s3_getObject_stream :: "string \<Rightarrow> stream_event list"

subsection \<open>The status table\<close>

text \<open>
  Modelled from the spec: the definition of the status table and of its two secondary
  indexes is not among the sources. The spec gives the store as keyed by the archive id,
  with a lookup by (partition id, row sequence) that supports a descending scan limited to
  one result, and a lookup by resolved name that supports a count. A put replaces the item
  with the same key. A query limited to one item that returns an item also returns the key
  of that item (index key and table key) as \<open>LastEvaluatedKey\<close>. An item whose \<open>ifn\<close> is
  not a number has no place in the index by row sequence.
\<close>

definition table_put :: "status_record list \<Rightarrow> status_record \<Rightarrow> status_record list" where
  "table_put t item = filter (\<lambda>r. aid r \<noteq> aid item) t @ [item]"

fun ifn_int :: "status_record \<Rightarrow> int" where
  "ifn_int r = (case ifn r of Num n \<Rightarrow> n | NaN \<Rightarrow> 0)"

definition max_file_index :: "status_record list \<Rightarrow> int \<Rightarrow> status_record list" where
  "max_file_index t p = rev (sort_key ifn_int (filter (\<lambda>r. pid r = p \<and> ifn r \<noteq> NaN) t))"

definition key_of :: "status_record \<Rightarrow> (string \<rightharpoonup> attribute_value)" where
  "key_of r = [''pid'' \<mapsto> N (toString (Num (pid r))), ''ifn'' \<mapsto> N (toString (ifn r)),
               ''aid'' \<mapsto> S (aid r)]"

definition max_file_index_query :: "status_record list \<Rightarrow> int \<Rightarrow> query_result" where
  "max_file_index_query t p =
     (case take 1 (max_file_index t p) of
        [] \<Rightarrow> \<lparr>Count = 0, LastEvaluatedKey = None\<rparr>
      | r # _ \<Rightarrow> \<lparr>Count = 1, LastEvaluatedKey = Some (key_of r)\<rparr>)"

definition name_index_query :: "status_record list \<Rightarrow> string \<Rightarrow> query_result" where
  "name_index_query t f =
     \<lparr>Count = length (take 1 (filter (\<lambda>r. fname r = f) t)), LastEvaluatedKey = None\<rparr>"

text \<open>
  The call \<^verbatim>\<open>dynamodb.putItem({Item: AWS.DynamoDB.Converter.marshall({...}), ...})\<close>.
  \<^verbatim>\<open>marshall\<close> writes a number \<open>n\<close> as the attribute \<^verbatim>\<open>{N: n.toString()}\<close>, so \<^verbatim>\<open>NaN\<close> goes
  out as \<^verbatim>\<open>{N: "NaN"}\<close>. The store takes a number attribute only when the string is a number:
  it refuses \<^verbatim>\<open>"NaN"\<close> with a \<^verbatim>\<open>ValidationException\<close> and stores nothing. Every other item
  is answered by the store as the environment has it.
\<close>

definition numberAttributes :: "status_record \<Rightarrow> string list" where
  "numberAttributes item =
     [toString (ifn item), toString (Num (pid item)), toString (sz item), toString (cc item),
      toString (Num (rc item))]"

definition putItem :: "env \<Rightarrow> world \<Rightarrow> status_record \<Rightarrow> error option" where
  "putItem env w item =
     (if ''NaN'' \<in> set (numberAttributes item) then Some (ServiceError ''ValidationException'')
      else dynamodb_putItem env w item)"

section \<open>The partition driver\<close>

subsection \<open>The partition cursor\<close>

text \<open>
  \<^verbatim>\<open>
  let result = await dynamodb.query({... IndexName: "max-file-index",
          KeyConditionExpression: "pid = :pid", ... ScanIndexForward: false, Limit: 1}).promise();
  if (result.Count == 0) { return 0; }
  const lastIfn = parseInt(result.LastEvaluatedKey.ifn.N);
  const aid = result.LastEvaluatedKey.aid.S;
  return lastIfn;
  \<close>
  Reading a property of \<^verbatim>\<open>undefined\<close> is a \<^verbatim>\<open>TypeError\<close>; reading \<^verbatim>\<open>.N\<close> of a string
  attribute gives \<^verbatim>\<open>undefined\<close>, which \<^verbatim>\<open>parseInt\<close> reads as the string \<^verbatim>\<open>"undefined"\<close>.
\<close>

fun attr_N :: "attribute_value \<Rightarrow> string" where
  "attr_N (N s) = s"
| "attr_N (S s) = ''undefined''"

definition getPartitionMaxProcessedFileNumber :: "env \<Rightarrow> world \<Rightarrow> int \<Rightarrow> error + jsnum" where
  "getPartitionMaxProcessedFileNumber env w p =
     (case dynamodb_query_max_file_index env w p of
        Inl e \<Rightarrow> Inl e
      | Inr result \<Rightarrow>
          if Count result = 0 then Inr (Num 0)
          else (case LastEvaluatedKey result of
                  None \<Rightarrow> Inl TypeError
                | Some k \<Rightarrow>
                    (case k ''ifn'' of
                       None \<Rightarrow> Inl TypeError
                     | Some a \<Rightarrow>
                         let lastIfn = parseInt (attr_N a) in
                         (case k ''aid'' of
                            None \<Rightarrow> Inl TypeError
                          | Some _ \<Rightarrow> Inr lastIfn))))"

subsection \<open>The name lookup\<close>

definition filenameExists :: "env \<Rightarrow> world \<Rightarrow> string \<Rightarrow> error + bool" where
  "filenameExists env w f =
     (case dynamodb_query_name_index env w f of
        Inl e \<Rightarrow> Inl e
      | Inr result \<Rightarrow> Inr (Count result \<noteq> 0))"

subsection \<open>The inventory reader\<close>

text \<open>
  The polling loop of \<^verbatim>\<open>readAthenaPartition\<close>; \<open>i\<close> counts the polls made so far. The loop
  has no bound: as long as the service answers \<^verbatim>\<open>QUEUED\<close> or \<^verbatim>\<open>RUNNING\<close> it goes on, and
  \<open>None\<close> is the run that never ends. (The five seconds between two polls are not modelled.)
\<close>

partial_function (option) pollQueryExecution :: "env \<Rightarrow> string \<Rightarrow> nat \<Rightarrow> (error + unit) option" where
  [code]: "pollQueryExecution env QueryExecutionId i =
     (case athena_getQueryExecution env QueryExecutionId i of
        Inl e \<Rightarrow> Some (Inl e)
      | Inr state \<Rightarrow>
          if state \<notin> set [''QUEUED'', ''RUNNING'', ''SUCCEEDED'']
          then Some (Inl (Thrown ''Athena exception''))
          else if state = ''SUCCEEDED'' then Some (Inr ())
          else pollQueryExecution env QueryExecutionId (i + 1))"

definition readAthenaPartition :: "env \<Rightarrow> int \<Rightarrow> (error + string) option" where
  "readAthenaPartition env partNumber =
     (case athena_startQueryExecution env partNumber of
        Inl e \<Rightarrow> Some (Inl e)
      | Inr QueryExecutionId \<Rightarrow>
          (case pollQueryExecution env QueryExecutionId 0 of
             None \<Rightarrow> None
           | Some (Inl e) \<Rightarrow> Some (Inl e)
           | Some (Inr _) \<Rightarrow> Some (Inr (''results/'' @ QueryExecutionId @ ''.csv''))))"

text \<open>
  \<^verbatim>\<open>readResultsCSV\<close> builds its promise from \<^verbatim>\<open>(resolve) => ...\<close> and attaches two
  listeners: \<^verbatim>\<open>data\<close> converts the two numeric cells and appends the line, \<^verbatim>\<open>end\<close>
  resolves with the lines. There is no \<^verbatim>\<open>error\<close> listener: when the stream emits
  \<^verbatim>\<open>error\<close>, the emitter throws the error, nothing catches it and the process ends with
  it. A stream whose events run out before \<^verbatim>\<open>end\<close> leaves the promise pending. After
  \<^verbatim>\<open>end\<close> the stream delivers nothing more.
\<close>

definition onData :: "string row \<Rightarrow> jsnum row" where
  "onData data =
     \<lparr>row_num = parseInt (row_num data), size_col = parseInt (size_col data),
      archiveid = archiveid data, sha256treehash = sha256treehash data,
      archivedescription = archivedescription data, creationdate = creationdate data\<rparr>"

fun listen :: "jsnum row list \<Rightarrow> stream_event list \<Rightarrow> jsnum row list outcome" where
  "listen lines [] = Pending"
| "listen lines (Data data # events) = listen (lines @ [onData data]) events"
| "listen lines (End # events) = Resolved lines"
| "listen lines (StreamError e # events) = Uncaught e"

definition readResultsCSV :: "env \<Rightarrow> string \<Rightarrow> jsnum row list outcome" where
  "readResultsCSV env key = listen [] (s3_getObject_stream env key)"

subsection \<open>The handler\<close>

text \<open>
  The state of the \<^verbatim>\<open>for\<close> loop: the array \<^verbatim>\<open>processed\<close>, the variable
  \<^verbatim>\<open>partitionMaxProcessedFileNumber\<close> and the world. \<open>forBody\<close> is one pass of the body for
  one line; it returns the error that ended it, if any, and the state it leaves.
\<close>

type_synonym loop_state = "string list \<times> jsnum \<times> world"

definition forBody :: "env \<Rightarrow> int \<Rightarrow> jsnum row \<Rightarrow> loop_state \<Rightarrow> error option \<times> loop_state" where
  "forBody env p line st =
     (case st of (processed, partitionMaxProcessedFileNumber, w) \<Rightarrow>
      if js_le (row_num line) partitionMaxProcessedFileNumber then (None, st)
      else
        let fname0 = parseFileName env (archiveid line) (archivedescription line) in
        (case (if fname0 \<in> set processed then Inr True else filenameExists env w fname0) of
           Inl e \<Rightarrow> (Some e, st)
         | Inr duplicate \<Rightarrow>
             let fname1 = (if duplicate then fname0 @ ''-'' @ creationdate line else fname0) in
             (case glacier_initiateJob env w (archiveid line) of
                Inl e \<Rightarrow> (Some e, st)
              | Inr glacierJobId \<Rightarrow>
                  let w1 = w\<lparr>jobs := jobs w @ [archiveid line]\<rparr>;
                      st1 = (processed, partitionMaxProcessedFileNumber, w1)
                  in
                  (case calculateNumberOfChunks (size_col line) of
                     Inl e \<Rightarrow> (Some e, st1)
                   | Inr chunks \<Rightarrow>
                       let item = \<lparr>aid = archiveid line, jobId = glacierJobId,
                                   ifn = row_num line, pid = p, sha = sha256treehash line,
                                   sz = size_col line, cdt = moment_format env w1,
                                   descr = archivedescription line, fname = fname1,
                                   cc = chunks, rc = 0\<rparr>
                       in
                       (case putItem env w1 item of
                          Some e \<Rightarrow> (Some e, st1)
                        | None \<Rightarrow>
                            (None, (processed @ [fname1], row_num line,
                                    w1\<lparr>table := table_put (table w1) item\<rparr>)))))))"

fun forLines :: "env \<Rightarrow> int \<Rightarrow> jsnum row list \<Rightarrow> loop_state \<Rightarrow> error option \<times> loop_state" where
  "forLines env p [] st = (None, st)"
| "forLines env p (line # lines) st =
     (case forBody env p line st of
        (Some e, st') \<Rightarrow> (Some e, st')
      | (None, st') \<Rightarrow> forLines env p lines st')"

text \<open>
  The handler returns what awaiting its promise gives, the caller's payload object as the
  invocation leaves it, and the world.
\<close>

definition handler ::
  "env \<Rightarrow> world \<Rightarrow> 'a payload_scheme \<Rightarrow> 'a payload_scheme outcome \<times> 'a payload_scheme \<times> world" where
  "handler env w payload =
     (let p = nextPartition payload in
      case getPartitionMaxProcessedFileNumber env w p of
        Inl e \<Rightarrow> (Rejected e, payload, w)
      | Inr partitionMaxProcessedFileNumber \<Rightarrow>
          (case readAthenaPartition env p of
             None \<Rightarrow> (Pending, payload, w)
           | Some (Inl e) \<Rightarrow> (Rejected e, payload, w)
           | Some (Inr resultsCSV) \<Rightarrow>
               (case readResultsCSV env resultsCSV of
                  Pending \<Rightarrow> (Pending, payload, w)
                | Uncaught e \<Rightarrow> (Uncaught e, payload, w)
                | Rejected e \<Rightarrow> (Rejected e, payload, w)
                | Resolved lines \<Rightarrow>
                    (case forLines env p lines ([], partitionMaxProcessedFileNumber, w) of
                       (Some e, (_, _, w')) \<Rightarrow> (Rejected e, payload, w')
                     | (None, (_, _, w')) \<Rightarrow>
                         let payload' = payload\<lparr>nextPartition := js_plus p 1\<rparr>
                         in (Resolved payload', payload', w')))))"

section \<open>An environment to run the driver in\<close>

text \<open>
  An environment in which every service answers: the two index queries answer from the
  table, the store accepts every item that reaches it (\<open>putItem\<close> has refused the items
  with a \<^verbatim>\<open>NaN\<close> before), the job for archive \<open>a\<close> is \<open>job-a\<close>, the query
  goes through the given states and then stays \<^verbatim>\<open>RUNNING\<close>, and the result object
  delivers the given events. The file name of an archive is its description.
\<close>

definition answering_env :: "string list \<Rightarrow> stream_event list \<Rightarrow> env" where
  "answering_env states events =
     \<lparr>parseFileName = (\<lambda>a d. d),
      moment_format = (\<lambda>w. ''2021-01-01T00:00:00Z''),
      dynamodb_query_max_file_index = (\<lambda>w p. Inr (max_file_index_query (table w) p)),
      dynamodb_query_name_index = (\<lambda>w f. Inr (name_index_query (table w) f)),
      dynamodb_putItem = (\<lambda>w item. None),
      glacier_initiateJob = (\<lambda>w a. Inr (''job-'' @ a)),
      athena_startQueryExecution = (\<lambda>p. Inr ''q1''),
      athena_getQueryExecution =
        (\<lambda>q i. Inr (if i < length states then states ! i else ''RUNNING'')),
      s3_getObject_stream = (\<lambda>k. events)\<rparr>"

definition csv_line :: "string \<Rightarrow> string \<Rightarrow> string \<Rightarrow> string \<Rightarrow> string \<Rightarrow> string row" where
  "csv_line n s a d c =
     \<lparr>row_num = n, size_col = s, archiveid = a, sha256treehash = ''h'',
      archivedescription = d, creationdate = c\<rparr>"

definition three_photos :: "stream_event list" where
  "three_photos = [Data (csv_line ''1'' ''100'' ''A1'' ''photo'' ''d''),
                   Data (csv_line ''2'' ''100'' ''A2'' ''photo'' ''d''),
                   Data (csv_line ''3'' ''4294967297'' ''A3'' ''photo'' ''d''), End]"

text \<open>The same environment with a name index that lags behind the table: it reports no
  record for any name.\<close>

definition lagging_env :: "string list \<Rightarrow> stream_event list \<Rightarrow> env" where
  "lagging_env states events =
     (answering_env states events)
       \<lparr>dynamodb_query_name_index := (\<lambda>w f. Inr \<lparr>Count = 0, LastEvaluatedKey = None\<rparr>)\<rparr>"

definition nothing_recorded :: world where
  "nothing_recorded = \<lparr>table = [], jobs = []\<rparr>"

definition recorded :: "string \<Rightarrow> int \<Rightarrow> int \<Rightarrow> string \<Rightarrow> status_record" where
  "recorded a p n f =
     \<lparr>aid = a, jobId = ''job-'' @ a, ifn = Num n, pid = p, sha = ''h'', sz = Num 100,
      cdt = ''2021-01-01T00:00:00Z'', descr = f, fname = f, cc = Num 1, rc = 0\<rparr>"

definition two_partitions :: world where
  "two_partitions =
     \<lparr>table = [recorded ''A1'' 7 1 ''photo'', recorded ''B1'' 3 9 ''cat'',
               recorded ''A2'' 7 2 ''photo-d''],
      jobs = [''A1'', ''B1'', ''A2'']\<rparr>"

section \<open>Properties of the chunk planner\<close>

lemma CHUNK_SIZE_pos: "0 < CHUNK_SIZE"
  by (simp add: CHUNK_SIZE_def)

lemma js_rem_zero_iff: "0 < c \<Longrightarrow> js_strict_ne_zero (js_rem (Num s) c) \<longleftrightarrow> s mod c \<noteq> 0"
proof -
  assume c: "0 < c"
  have "\<bar>s\<bar> mod c = 0 \<longleftrightarrow> s mod c = 0"
    by (simp flip: dvd_eq_mod_eq_0)
  then show ?thesis
    using c by (cases "s = 0") (simp_all add: sgn_if)
qed

lemma calculateNumberOfChunks_Num:
  "calculateNumberOfChunks (Num s) =
     Inr (Num (s div CHUNK_SIZE + (if s mod CHUNK_SIZE \<noteq> 0 then 1 else 0)))"
  by (simp add: calculateNumberOfChunks_def Let_def js_rem_zero_iff [OF CHUNK_SIZE_pos]
      del: js_rem.simps js_strict_ne_zero.simps)

lemma ceiling_div_int:
  "0 < c \<Longrightarrow> \<lceil>real_of_int s / real_of_int c\<rceil> = s div c + (if s mod c \<noteq> 0 then 1 else 0)"
  by (simp add: ceiling_divide_eq_div zdiv_zminus1_eq_if)

lemma calculateNumberOfChunks_ceil:
  "calculateNumberOfChunks (Num s) = Inr (Num \<lceil>real_of_int s / real_of_int CHUNK_SIZE\<rceil>)"
  by (simp only: calculateNumberOfChunks_Num ceiling_div_int [OF CHUNK_SIZE_pos])

text \<open>
  C1. For every non-negative integer \<open>s\<close>, \<open>calculateNumberOfChunks s\<close> is the ceiling of
  \<open>s / CHUNK_SIZE\<close>: it is 0 for \<open>s = 0\<close>, exactly \<open>s / CHUNK_SIZE\<close> when \<open>s\<close> is a
  multiple of \<open>CHUNK_SIZE\<close> (no extra chunk), and \<open>floor (s / CHUNK_SIZE) + 1\<close> otherwise.
\<close>

theorem calculateNumberOfChunks_is_ceiling:
  assumes "0 \<le> s"
  shows "calculateNumberOfChunks (Num s) = Inr (Num \<lceil>real_of_int s / real_of_int CHUNK_SIZE\<rceil>)
       \<and> (s = 0 \<longrightarrow> calculateNumberOfChunks (Num s) = Inr (Num 0))
       \<and> (s mod CHUNK_SIZE = 0 \<longrightarrow> calculateNumberOfChunks (Num s) = Inr (Num (s div CHUNK_SIZE)))
       \<and> (s mod CHUNK_SIZE \<noteq> 0 \<longrightarrow>
            calculateNumberOfChunks (Num s) =
              Inr (Num (\<lfloor>real_of_int s / real_of_int CHUNK_SIZE\<rfloor> + 1)))"
proof (intro conjI impI)
  show "calculateNumberOfChunks (Num s) = Inr (Num \<lceil>real_of_int s / real_of_int CHUNK_SIZE\<rceil>)"
    by (rule calculateNumberOfChunks_ceil)
next
  assume "s = 0"
  then show "calculateNumberOfChunks (Num s) = Inr (Num 0)"
    by (simp add: calculateNumberOfChunks_Num)
next
  assume "s mod CHUNK_SIZE = 0"
  then show "calculateNumberOfChunks (Num s) = Inr (Num (s div CHUNK_SIZE))"
    by (simp add: calculateNumberOfChunks_Num)
next
  assume "s mod CHUNK_SIZE \<noteq> 0"
  then show "calculateNumberOfChunks (Num s) =
      Inr (Num (\<lfloor>real_of_int s / real_of_int CHUNK_SIZE\<rfloor> + 1))"
    by (simp add: calculateNumberOfChunks_Num floor_divide_of_int_eq)
qed

theorem calculateNumberOfChunks_is_ceiling_witness:
  "(0::int) \<le> 4294967297 \<and> calculateNumberOfChunks (Num 4294967296) = Inr (Num 1)
   \<and> calculateNumberOfChunks (Num 4294967297) = Inr (Num 2)
   \<and> calculateNumberOfChunks (Num 0) = Inr (Num 0)"
  using calculateNumberOfChunks_is_ceiling [of 4294967297]
    calculateNumberOfChunks_is_ceiling [of 4294967296]
    calculateNumberOfChunks_is_ceiling [of 0]
  by (simp add: CHUNK_SIZE_def)

text \<open>
  C8. The claim: \<open>calculateNumberOfChunks\<close> rejects negative input, and that is its only
  failure mode. The function has no failure mode at all; at \<open>-1\<close> it returns the count 0.
\<close>

theorem calculateNumberOfChunks_negative_counterexample:
  "calculateNumberOfChunks (Num (- 1)) = Inr (Num 0)"
  by (simp add: calculateNumberOfChunks_def CHUNK_SIZE_def)

text \<open>
  C8, as the code has it: \<open>calculateNumberOfChunks\<close> returns on every input. For a negative
  size it returns the ceiling of \<open>s / CHUNK_SIZE\<close>, a count that is zero or negative, and for
  \<open>NaN\<close> it returns \<open>NaN\<close>.
\<close>

theorem calculateNumberOfChunks_never_fails:
  "(\<exists>n. calculateNumberOfChunks x = Inr n)
   \<and> (s < 0 \<longrightarrow>
        calculateNumberOfChunks (Num s) = Inr (Num \<lceil>real_of_int s / real_of_int CHUNK_SIZE\<rceil>))
   \<and> calculateNumberOfChunks NaN = Inr NaN"
  by (simp add: calculateNumberOfChunks_ceil) (simp add: calculateNumberOfChunks_def Let_def)

theorem calculateNumberOfChunks_never_fails_witness:
  "(- 4294967297 :: int) < 0 \<and> calculateNumberOfChunks (Num (- 4294967297)) = Inr (Num (- 1))"
  using calculateNumberOfChunks_never_fails [of "Num (- 4294967297)" "- 4294967297"]
  by (simp add: CHUNK_SIZE_def)

section \<open>The sum of doubles below and at \<open>2^53\<close>\<close>

lemma quantum_small: "m < 2 ^ 53 \<Longrightarrow> quantum m = 1"
  by (subst quantum.simps) simp

lemma quantum_next: "2 ^ 53 \<le> m \<Longrightarrow> m < 2 ^ 54 \<Longrightarrow> quantum m = 2"
  by (subst quantum.simps) (simp add: quantum_small)

lemma nearestDouble_nat_exact: "m \<le> 2 ^ 53 \<Longrightarrow> nearestDouble_nat m = m"
proof (cases "m < 2 ^ 53")
  case True
  then show ?thesis
    by (simp add: nearestDouble_nat_def quantum_small)
next
  case False
  assume "m \<le> 2 ^ 53"
  with False have m: "m = 2 ^ 53" by simp
  then have "quantum m = 2"
    by (simp add: quantum_next)
  with m show ?thesis
    by (simp add: nearestDouble_nat_def Let_def)
qed

lemma nearestDouble_exact: "\<bar>n\<bar> \<le> 2 ^ 53 \<Longrightarrow> nearestDouble n = n"
proof (cases "0 \<le> n")
  case True
  assume "\<bar>n\<bar> \<le> 2 ^ 53"
  with True have "nat n \<le> 2 ^ 53"
    by (simp add: nat_le_iff)
  with True show ?thesis
    by (simp add: nearestDouble_def nearestDouble_nat_exact)
next
  case False
  assume "\<bar>n\<bar> \<le> 2 ^ 53"
  with False have "nat (- n) \<le> 2 ^ 53"
    by (simp add: nat_le_iff)
  with False show ?thesis
    by (simp add: nearestDouble_def nearestDouble_nat_exact)
qed

lemma js_plus_one_safe: "\<bar>p\<bar> < 2 ^ 53 \<Longrightarrow> js_plus p 1 = p + 1"
  unfolding js_plus_def by (rule nearestDouble_exact) simp

lemma js_plus_one_2_53: "js_plus 9007199254740992 1 = 9007199254740992"
proof -
  have "quantum 9007199254740993 = 2"
    by (rule quantum_next) simp_all
  then show ?thesis
    by (simp add: js_plus_def nearestDouble_def nearestDouble_nat_def Let_def)
qed

section \<open>Reading back a printed number\<close>

text \<open>
  \<^verbatim>\<open>parseInt\<close> reads back what \<^verbatim>\<open>toString\<close> prints: the number attribute of a key
  gives the number that was stored. Only \<open>NaN\<close> prints as \<^verbatim>\<open>"NaN"\<close>.
\<close>

lemma skipWhiteSpace_none: "whiteSpacePrefix s = 0 \<Longrightarrow> skipWhiteSpace s = s"
  by (subst skipWhiteSpace.simps) simp

lemma skipWhiteSpace_some:
  "whiteSpacePrefix s \<noteq> 0 \<Longrightarrow> skipWhiteSpace s = skipWhiteSpace (drop (whiteSpacePrefix s) s)"
  by (subst skipWhiteSpace.simps) simp

lemma of_char_digitChar: "d < 10 \<Longrightarrow> of_char (digitChar d) = (48 + d :: nat)"
  by (simp add: digitChar_def)

lemma digitValue_digitChar: "d < 10 \<Longrightarrow> digitValue (digitChar d) = Some d"
  by (simp add: digitValue_def of_char_digitChar)

lemma decimalDigits_decimal: "decimalDigits (decimal n)"
proof (induction n rule: decimal.induct)
  case (1 n)
  show ?case
  proof (cases "n < 10")
    case True
    then show ?thesis
      by (subst decimal.simps) (auto simp: decimalDigits_def)
  next
    case False
    have "\<exists>d<10. digitChar (n mod 10) = digitChar d"
      by (rule exI [of _ "n mod 10"]) simp
    with False 1 show ?thesis
      by (subst decimal.simps) (auto simp: decimalDigits_def)
  qed
qed

lemma digitsValue_snoc: "digitsValue R (Z @ [c]) = digitsValue R Z * R + the (digitValue c)"
  by (simp add: digitsValue_def)

lemma digitsValue_decimal: "digitsValue 10 (decimal n) = n"
proof (induction n rule: decimal.induct)
  case (1 n)
  show ?case
  proof (cases "n < 10")
    case True
    then show ?thesis
      by (subst decimal.simps) (simp add: digitsValue_def digitValue_digitChar)
  next
    case False
    have "n mod 10 < 10" by simp
    then have "the (digitValue (digitChar (n mod 10))) = n mod 10"
      by (simp add: digitValue_digitChar)
    with False 1 show ?thesis
      by (subst decimal.simps) (simp add: digitsValue_snoc)
  qed
qed

lemma digit_facts:
  assumes "d < 10"
  shows "whiteSpacePrefix (digitChar d # cs) = 0" "digitChar d \<noteq> CHR ''-''" "digitChar d \<noteq> CHR ''+''"
    "digitChar d \<noteq> CHR ''x''" "digitChar d \<noteq> CHR ''X''" "radixDigit 10 (digitChar d)"
proof -
  have v: "of_char (digitChar d) = (48 + d :: nat)"
    using assms by (rule of_char_digitChar)
  show "whiteSpacePrefix (digitChar d # cs) = 0"
    using assms by (simp add: whiteSpacePrefix_def v)
  show "digitChar d \<noteq> CHR ''-''"
  proof
    assume "digitChar d = CHR ''-''"
    then have "(of_char (digitChar d) :: nat) = of_char CHR ''-''" by simp
    with v show False by simp
  qed
  show "digitChar d \<noteq> CHR ''+''"
  proof
    assume "digitChar d = CHR ''+''"
    then have "(of_char (digitChar d) :: nat) = of_char CHR ''+''" by simp
    with v show False by simp
  qed
  show "digitChar d \<noteq> CHR ''x''"
  proof
    assume "digitChar d = CHR ''x''"
    then have "(of_char (digitChar d) :: nat) = of_char CHR ''x''" by simp
    with v assms show False by simp
  qed
  show "digitChar d \<noteq> CHR ''X''"
  proof
    assume "digitChar d = CHR ''X''"
    then have "(of_char (digitChar d) :: nat) = of_char CHR ''X''" by simp
    with v assms show False by simp
  qed
  show "radixDigit 10 (digitChar d)"
    using assms by (simp add: radixDigit_def digitValue_digitChar)
qed

lemma parseInt_digits:
  assumes "decimalDigits s"
  shows "parseInt s = Num (int (digitsValue 10 s))"
    and "parseInt (CHR ''-'' # s) = Num (- int (digitsValue 10 s))"
proof -
  from assms obtain c cs where s: "s = c # cs"
    by (cases s) (auto simp: decimalDigits_def)
  from assms have all: "\<forall>c\<in>set s. \<exists>d<10. c = digitChar d"
    by (simp add: decimalDigits_def)
  with s obtain d where d: "d < 10" "c = digitChar d"
    by auto
  have ws: "skipWhiteSpace s = s"
    using s d digit_facts(1) by (simp add: skipWhiteSpace_none)
  have sign: "stripSign s = (1, s)"
    using s d digit_facts(2,3) by (simp add: stripSign_def)
  have pre: "stripPrefix s = (10, s)"
  proof (cases cs)
    case Nil
    with s show ?thesis by (simp add: stripPrefix_def)
  next
    case (Cons c' cs')
    with s all obtain d' where "d' < 10" "c' = digitChar d'"
      by auto
    with s Cons digit_facts(4,5) show ?thesis
      by (simp add: stripPrefix_def)
  qed
  have tw: "takeWhile (radixDigit 10) s = s"
    using all digit_facts(6) by (auto simp: takeWhile_eq_all_conv)
  have ne: "s \<noteq> []"
    using s by simp
  show "parseInt s = Num (int (digitsValue 10 s))"
    using ne by (simp add: parseInt_def ws sign pre tw)
  have ws': "skipWhiteSpace (CHR ''-'' # s) = CHR ''-'' # s"
    by (simp add: skipWhiteSpace_none whiteSpacePrefix_def)
  have sign': "stripSign (CHR ''-'' # s) = (- 1, s)"
    by (simp add: stripSign_def)
  show "parseInt (CHR ''-'' # s) = Num (- int (digitsValue 10 s))"
    using ne by (simp only: parseInt_def ws' sign' pre tw Let_def split_conv if_False) simp
qed

lemma parseInt_toString: "parseInt (toString x) = x"
proof (cases x)
  case NaN
  then show ?thesis
    by (simp add: parseInt_def stripSign_def stripPrefix_def skipWhiteSpace_none
        whiteSpacePrefix_def radixDigit_def digitValue_def)
next
  case (Num n)
  then show ?thesis
    by (simp add: parseInt_digits [OF decimalDigits_decimal] digitsValue_decimal)
qed

lemma toString_NaN_iff: "toString x = ''NaN'' \<longleftrightarrow> x = NaN"
proof (cases x)
  case NaN
  then show ?thesis by simp
next
  case (Num n)
  have "decimalDigits (decimal m)" for m
    by (rule decimalDigits_decimal)
  then obtain d where d: "d < 10" "hd (decimal (nat \<bar>n\<bar>)) = digitChar d"
    unfolding decimalDigits_def by (metis hd_in_set)
  have "digitChar d \<noteq> CHR ''N''"
  proof
    assume "digitChar d = CHR ''N''"
    then have "(of_char (digitChar d) :: nat) = of_char CHR ''N''" by simp
    with d(1) show False by (simp add: of_char_digitChar)
  qed
  with d have "decimal (nat \<bar>n\<bar>) \<noteq> ''NaN''"
    by auto
  with Num show ?thesis
    by (auto simp: abs_if)
qed

lemmas parseInt_eval = parseInt_def stripSign_def stripPrefix_def skipWhiteSpace_none
  whiteSpacePrefix_def radixDigit_def digitValue_def digitsValue_def

section \<open>Properties of the partition cursor\<close>






lemma cursor_two_partitions:
  "getPartitionMaxProcessedFileNumber (answering_env sts evs) two_partitions 7 = Inr (Num 2)"
  by (simp add: getPartitionMaxProcessedFileNumber_def answering_env_def two_partitions_def
      recorded_def max_file_index_query_def max_file_index_def key_of_def parseInt_toString
      del: toString.simps)

lemma cursor_nothing_recorded:
  "getPartitionMaxProcessedFileNumber (answering_env sts evs) nothing_recorded p = Inr (Num 0)"
  by (simp add: getPartitionMaxProcessedFileNumber_def answering_env_def max_file_index_query_def
      max_file_index_def nothing_recorded_def)

section \<open>Properties of the inventory reader\<close>

lemma poll_skip:
  assumes "\<forall>j. i \<le> j \<and> j < k \<longrightarrow>
             athena_getQueryExecution env q j = Inr ''QUEUED'' \<or>
             athena_getQueryExecution env q j = Inr ''RUNNING''"
    and "i \<le> k"
  shows "pollQueryExecution env q i = pollQueryExecution env q k"
  using assms
proof (induction "k - i" arbitrary: i)
  case 0
  then show ?case by simp
next
  case (Suc d)
  then have lt: "i < k" and here: "athena_getQueryExecution env q i = Inr ''QUEUED'' \<or>
      athena_getQueryExecution env q i = Inr ''RUNNING''"
    by auto
  from here have "pollQueryExecution env q i = pollQueryExecution env q (i + 1)"
    by (subst pollQueryExecution.simps) auto
  also have "\<dots> = pollQueryExecution env q k"
    using Suc lt by (intro Suc.hyps) auto
  finally show ?case .
qed

lemma poll_failed:
  assumes "\<forall>j<k. athena_getQueryExecution env q j = Inr ''QUEUED'' \<or>
             athena_getQueryExecution env q j = Inr ''RUNNING''"
    and "athena_getQueryExecution env q k = Inr state"
    and "state \<notin> {''QUEUED'', ''RUNNING'', ''SUCCEEDED''}"
  shows "pollQueryExecution env q 0 = Some (Inl (Thrown ''Athena exception''))"
proof -
  have "pollQueryExecution env q 0 = pollQueryExecution env q k"
    using assms(1) by (intro poll_skip) auto
  also have "\<dots> = Some (Inl (Thrown ''Athena exception''))"
    using assms(2,3) by (subst pollQueryExecution.simps) simp
  finally show ?thesis .
qed

lemma poll_succeeded:
  assumes "\<forall>j<k. athena_getQueryExecution env q j = Inr ''QUEUED'' \<or>
             athena_getQueryExecution env q j = Inr ''RUNNING''"
    and "athena_getQueryExecution env q k = Inr ''SUCCEEDED''"
  shows "pollQueryExecution env q 0 = Some (Inr ())"
proof -
  have "pollQueryExecution env q 0 = pollQueryExecution env q k"
    using assms(1) by (intro poll_skip) auto
  also have "\<dots> = Some (Inr ())"
    using assms(2) by (subst pollQueryExecution.simps) simp
  finally show ?thesis .
qed

lemma readAthenaPartition_answering:
  "readAthenaPartition (answering_env [''QUEUED'', ''SUCCEEDED''] evs) p =
     Some (Inr ''results/q1.csv'')"
proof -
  have "pollQueryExecution (answering_env [''QUEUED'', ''SUCCEEDED''] evs) ''q1'' 0 = Some (Inr ())"
    by (rule poll_succeeded [where k = 1]) (simp_all add: answering_env_def)
  then show ?thesis
    by (simp add: readAthenaPartition_def answering_env_def)
qed

lemma listen_Data_prefix:
  "listen lines (map Data ds @ events) = listen (lines @ map onData ds) events"
  by (induction ds arbitrary: lines) simp_all

lemma listen_only_Data: "listen lines (map Data ds) = Pending"
  using listen_Data_prefix [of lines ds "[]"] by simp

lemma listen_not_Rejected: "listen lines events \<noteq> Rejected e"
  by (induction lines events rule: listen.induct) simp_all

lemma events_shape:
  "(\<exists>ds. events = map Data ds)
   \<or> (\<exists>ds rest. events = map Data ds @ End # rest)
   \<or> (\<exists>ds e rest. events = map Data ds @ StreamError e # rest)"
proof (induction events)
  case Nil
  have "[] = map Data []" by simp
  then show ?case by (intro disjI1 exI)
next
  case (Cons ev events)
  show ?case
  proof (cases ev)
    case (Data d)
    from Cons consider ds where "events = map Data ds"
      | ds rest where "events = map Data ds @ End # rest"
      | ds e rest where "events = map Data ds @ StreamError e # rest"
      by blast
    then show ?thesis
    proof cases
      case 1
      then have "ev # events = map Data (d # ds)" using Data by simp
      then show ?thesis by (intro disjI1 exI)
    next
      case 2
      then have "ev # events = map Data (d # ds) @ End # rest" using Data by simp
      then show ?thesis by (intro disjI2 disjI1 exI)
    next
      case 3
      then have "ev # events = map Data (d # ds) @ StreamError e # rest" using Data by simp
      then show ?thesis by (intro disjI2 exI)
    qed
  next
    case End
    then have "ev # events = map Data [] @ End # events" by simp
    then show ?thesis by (intro disjI2 disjI1 exI)
  next
    case (StreamError e)
    then have "ev # events = map Data [] @ StreamError e # events" by simp
    then show ?thesis by (intro disjI2 exI)
  qed
qed

lemma readResultsCSV_three_photos:
  "readResultsCSV (answering_env sts three_photos) k =
     Resolved [
       \<lparr>row_num = Num 1, size_col = Num 100, archiveid = ''A1'', sha256treehash = ''h'',
        archivedescription = ''photo'', creationdate = ''d''\<rparr>,
       \<lparr>row_num = Num 2, size_col = Num 100, archiveid = ''A2'', sha256treehash = ''h'',
        archivedescription = ''photo'', creationdate = ''d''\<rparr>,
       \<lparr>row_num = Num 3, size_col = Num 4294967297, archiveid = ''A3'', sha256treehash = ''h'',
        archivedescription = ''photo'', creationdate = ''d''\<rparr>]"
  by (simp add: readResultsCSV_def answering_env_def three_photos_def csv_line_def onData_def
      parseInt_eval)

text \<open>
  C10. The claim: \<open>readResultsCSV\<close> never produces an error result, so on every input it
  resolves or never settles, and a read or parse failure of the results object makes the
  invocation hang rather than fail. The read fails after one line: the invocation does not
  hang, it ends with the error of the stream, which nothing catches.
\<close>

theorem stream_error_ends_invocation_counterexample:
  "handler (answering_env [''QUEUED'', ''SUCCEEDED'']
              [Data (csv_line ''1'' ''100'' ''A1'' ''photo'' ''d''),
               StreamError (ServiceError ''NoSuchKey'')])
      nothing_recorded \<lparr>nextPartition = 7, maxPartition = 9\<rparr> =
   (Uncaught (ServiceError ''NoSuchKey''), \<lparr>nextPartition = 7, maxPartition = 9\<rparr>,
    nothing_recorded)"
proof -
  have "readResultsCSV (answering_env [''QUEUED'', ''SUCCEEDED'']
              [Data (csv_line ''1'' ''100'' ''A1'' ''photo'' ''d''),
               StreamError (ServiceError ''NoSuchKey'')]) ''results/q1.csv'' =
      Uncaught (ServiceError ''NoSuchKey'')"
    by (simp add: readResultsCSV_def answering_env_def)
  then show ?thesis
    by (simp add: handler_def cursor_nothing_recorded readAthenaPartition_answering)
qed

text \<open>
  C10, as the code has it: the promise of \<open>readResultsCSV\<close> is never rejected; it is
  resolved only by the \<^verbatim>\<open>end\<close> event, with the lines parsed until then. Every stream ends, fails
  or falls silent. When it emits \<^verbatim>\<open>error\<close>, for which no listener is attached, the error is
  thrown outside the promise and ends the invocation with that error: it fails, it does not
  hang. Only a stream that emits neither \<^verbatim>\<open>end\<close> nor \<^verbatim>\<open>error\<close> leaves the promise, and the
  invocation that awaits it, pending.
\<close>

theorem readResultsCSV_never_rejects:
  "(\<forall>e. readResultsCSV env key \<noteq> Rejected e)
   \<and> (\<forall>ds rest. s3_getObject_stream env key = map Data ds @ End # rest \<longrightarrow>
          readResultsCSV env key = Resolved (map onData ds))
   \<and> (\<forall>ds e rest. s3_getObject_stream env key = map Data ds @ StreamError e # rest \<longrightarrow>
          readResultsCSV env key = Uncaught e)
   \<and> (\<forall>ds. s3_getObject_stream env key = map Data ds \<longrightarrow> readResultsCSV env key = Pending)
   \<and> ((\<exists>ds rest. s3_getObject_stream env key = map Data ds @ End # rest)
        \<or> (\<exists>ds e rest. s3_getObject_stream env key = map Data ds @ StreamError e # rest)
        \<or> (\<exists>ds. s3_getObject_stream env key = map Data ds))
   \<and> (getPartitionMaxProcessedFileNumber env w (nextPartition payload) = Inr c
        \<and> readAthenaPartition env (nextPartition payload) = Some (Inr key)
        \<and> readResultsCSV env key = Uncaught e \<longrightarrow>
          handler env w payload = (Uncaught e, payload, w))
   \<and> (getPartitionMaxProcessedFileNumber env w (nextPartition payload) = Inr c
        \<and> readAthenaPartition env (nextPartition payload) = Some (Inr key)
        \<and> readResultsCSV env key = Pending \<longrightarrow>
          handler env w payload = (Pending, payload, w))"
proof -
  have never: "\<forall>e. readResultsCSV env key \<noteq> Rejected e"
    by (simp add: readResultsCSV_def listen_not_Rejected)
  have ended: "\<forall>ds rest. s3_getObject_stream env key = map Data ds @ End # rest \<longrightarrow>
          readResultsCSV env key = Resolved (map onData ds)"
    by (simp add: readResultsCSV_def listen_Data_prefix)
  have failed: "\<forall>ds e rest. s3_getObject_stream env key = map Data ds @ StreamError e # rest \<longrightarrow>
          readResultsCSV env key = Uncaught e"
    by (simp add: readResultsCSV_def listen_Data_prefix)
  have silent: "\<forall>ds. s3_getObject_stream env key = map Data ds \<longrightarrow> readResultsCSV env key = Pending"
    by (simp add: readResultsCSV_def listen_only_Data)
  have shape: "(\<exists>ds rest. s3_getObject_stream env key = map Data ds @ End # rest)
        \<or> (\<exists>ds e rest. s3_getObject_stream env key = map Data ds @ StreamError e # rest)
        \<or> (\<exists>ds. s3_getObject_stream env key = map Data ds)"
    using events_shape [of "s3_getObject_stream env key"] by blast
  have dies: "getPartitionMaxProcessedFileNumber env w (nextPartition payload) = Inr c
        \<and> readAthenaPartition env (nextPartition payload) = Some (Inr key)
        \<and> readResultsCSV env key = Uncaught e \<longrightarrow>
          handler env w payload = (Uncaught e, payload, w)"
    by (simp add: handler_def)
  have waits: "getPartitionMaxProcessedFileNumber env w (nextPartition payload) = Inr c
        \<and> readAthenaPartition env (nextPartition payload) = Some (Inr key)
        \<and> readResultsCSV env key = Pending \<longrightarrow>
          handler env w payload = (Pending, payload, w)"
    by (simp add: handler_def)
  from never ended failed silent shape dies waits show ?thesis
    by (intro conjI)
qed

theorem readResultsCSV_never_rejects_witness:
  "readResultsCSV (answering_env [] three_photos) ''results/q1.csv'' =
     Resolved (map onData [csv_line ''1'' ''100'' ''A1'' ''photo'' ''d'',
                           csv_line ''2'' ''100'' ''A2'' ''photo'' ''d'',
                           csv_line ''3'' ''4294967297'' ''A3'' ''photo'' ''d''])
   \<and> readResultsCSV (answering_env [] [Data (csv_line ''1'' ''100'' ''A1'' ''photo'' ''d''),
                                         StreamError (ServiceError ''NoSuchKey'')])
        ''results/q1.csv'' = Uncaught (ServiceError ''NoSuchKey'')
   \<and> handler (answering_env [''QUEUED'', ''SUCCEEDED'']
                [Data (csv_line ''1'' ''100'' ''A1'' ''photo'' ''d'')])
        nothing_recorded \<lparr>nextPartition = 7, maxPartition = 9\<rparr> =
      (Pending, \<lparr>nextPartition = 7, maxPartition = 9\<rparr>, nothing_recorded)"
proof -
  let ?payload = "\<lparr>nextPartition = 7, maxPartition = 9\<rparr>"
  let ?l1 = "csv_line ''1'' ''100'' ''A1'' ''photo'' ''d''"
  let ?failing = "answering_env [] [Data ?l1, StreamError (ServiceError ''NoSuchKey'')]"
  let ?silent = "answering_env [''QUEUED'', ''SUCCEEDED''] [Data ?l1]"
  have read: "readResultsCSV (answering_env [] three_photos) ''results/q1.csv'' =
     Resolved (map onData [csv_line ''1'' ''100'' ''A1'' ''photo'' ''d'',
                           csv_line ''2'' ''100'' ''A2'' ''photo'' ''d'',
                           csv_line ''3'' ''4294967297'' ''A3'' ''photo'' ''d''])"
  proof -
    have "s3_getObject_stream (answering_env [] three_photos) ''results/q1.csv'' =
        map Data [csv_line ''1'' ''100'' ''A1'' ''photo'' ''d'',
                  csv_line ''2'' ''100'' ''A2'' ''photo'' ''d'',
                  csv_line ''3'' ''4294967297'' ''A3'' ''photo'' ''d''] @ End # []"
      by (simp add: answering_env_def three_photos_def)
    then show ?thesis
      using readResultsCSV_never_rejects
        [where env = "answering_env [] three_photos" and key = "''results/q1.csv''"
          and w = nothing_recorded and payload = ?payload and c = "Num 0"
          and e = "ServiceError ''NoSuchKey''"]
      by blast
  qed
  have fails: "readResultsCSV ?failing ''results/q1.csv'' = Uncaught (ServiceError ''NoSuchKey'')"
  proof -
    have "s3_getObject_stream ?failing ''results/q1.csv'' =
        map Data [?l1] @ StreamError (ServiceError ''NoSuchKey'') # []"
      by (simp add: answering_env_def)
    then show ?thesis
      using readResultsCSV_never_rejects
        [where env = ?failing and key = "''results/q1.csv''"
          and w = nothing_recorded and payload = ?payload and c = "Num 0"
          and e = "ServiceError ''NoSuchKey''"]
      by blast
  qed
  have "s3_getObject_stream ?silent ''results/q1.csv'' = map Data [?l1]"
    by (simp add: answering_env_def)
  then have "readResultsCSV ?silent ''results/q1.csv'' = Pending"
    using readResultsCSV_never_rejects
      [where env = ?silent and key = "''results/q1.csv''"
        and w = nothing_recorded and payload = ?payload and c = "Num 0"
        and e = "ServiceError ''NoSuchKey''"]
    by blast
  then have "handler ?silent nothing_recorded ?payload = (Pending, ?payload, nothing_recorded)"
    using readResultsCSV_never_rejects
      [where env = ?silent and key = "''results/q1.csv''" and w = nothing_recorded
        and payload = ?payload and c = "Num 0" and e = "ServiceError ''NoSuchKey''"]
      cursor_nothing_recorded [of "[''QUEUED'', ''SUCCEEDED'']" _ 7]
      readAthenaPartition_answering [of _ 7]
    by simp
  with read fails show ?thesis
    by simp
qed

section \<open>Properties of the loop\<close>

lemma NaN_attribute_iff:
  "''NaN'' \<in> set (numberAttributes item) \<longleftrightarrow> ifn item = NaN \<or> sz item = NaN \<or> cc item = NaN"
proof -
  have "toString x = ''NaN'' \<longleftrightarrow> x = NaN" for x
    by (rule toString_NaN_iff)
  then have "''NaN'' = toString x \<longleftrightarrow> x = NaN" for x
    by (metis (full_types))
  then show ?thesis
    by (simp add: numberAttributes_def del: toString.simps)
qed

lemma putItem_None_iff:
  "putItem env w item = None \<longleftrightarrow>
     ifn item \<noteq> NaN \<and> sz item \<noteq> NaN \<and> cc item \<noteq> NaN \<and> dynamodb_putItem env w item = None"
  by (simp add: putItem_def NaN_attribute_iff)

lemma putItem_number:
  "ifn item \<noteq> NaN \<Longrightarrow> sz item \<noteq> NaN \<Longrightarrow> cc item \<noteq> NaN \<Longrightarrow>
     putItem env w item = dynamodb_putItem env w item"
  by (simp add: putItem_def NaN_attribute_iff)

lemma putItem_NaN:
  "ifn item = NaN \<or> sz item = NaN \<or> cc item = NaN \<Longrightarrow>
     putItem env w item = Some (ServiceError ''ValidationException'')"
  by (simp add: putItem_def NaN_attribute_iff)

lemma putItem_eval:
  "putItem env w item =
     (if ifn item = NaN \<or> sz item = NaN \<or> cc item = NaN
      then Some (ServiceError ''ValidationException'') else dynamodb_putItem env w item)"
  by (simp add: putItem_def NaN_attribute_iff)

lemmas forBody_eval = forBody_def answering_env_def filenameExists_def name_index_query_def
  table_put_def calculateNumberOfChunks_def CHUNK_SIZE_def putItem_eval Let_def

lemma forBody_skip:
  "js_le (row_num line) cur \<Longrightarrow> forBody env p line (processed, cur, w) = (None, (processed, cur, w))"
  by (simp add: forBody_def)

lemma forBody_written:
  assumes "\<not> js_le (row_num line) cur"
    and "forBody env p line (processed, cur, w) = (None, (processed', cur', w'))"
  shows "\<exists>item. aid item = archiveid line \<and> ifn item = row_num line \<and> pid item = p
           \<and> sz item = size_col line \<and> calculateNumberOfChunks (size_col line) = Inr (cc item)
           \<and> rc item = 0
           \<and> ifn item \<noteq> NaN \<and> sz item \<noteq> NaN \<and> cc item \<noteq> NaN
           \<and> glacier_initiateJob env w (archiveid line) = Inr (jobId item)
           \<and> processed' = processed @ [fname item]
           \<and> fname item =
               (if parseFileName env (archiveid line) (archivedescription line) \<in> set processed
                   \<or> filenameExists env w (parseFileName env (archiveid line) (archivedescription line))
                      = Inr True
                then parseFileName env (archiveid line) (archivedescription line) @ ''-''
                       @ creationdate line
                else parseFileName env (archiveid line) (archivedescription line))
           \<and> cur' = row_num line
           \<and> jobs w' = jobs w @ [archiveid line]
           \<and> table w' = table_put (table w) item"
proof -
  let ?base = "parseFileName env (archiveid line) (archivedescription line)"
  obtain duplicate where dup:
    "(if ?base \<in> set processed then Inr True else filenameExists env w ?base) = Inr duplicate"
    using assms by (auto simp: forBody_def Let_def split: sum.splits)
  obtain j where job: "glacier_initiateJob env w (archiveid line) = Inr j"
    using assms dup by (auto simp: forBody_def Let_def split: sum.splits)
  obtain chunks where chunks: "calculateNumberOfChunks (size_col line) = Inr chunks"
    using assms dup job by (auto simp: forBody_def Let_def split: sum.splits)
  let ?w1 = "w\<lparr>jobs := jobs w @ [archiveid line]\<rparr>"
  let ?item = "\<lparr>aid = archiveid line, jobId = j, ifn = row_num line, pid = p,
      sha = sha256treehash line, sz = size_col line, cdt = moment_format env ?w1,
      descr = archivedescription line,
      fname = (if duplicate then ?base @ ''-'' @ creationdate line else ?base),
      cc = chunks, rc = 0\<rparr>"
  have body: "forBody env p line (processed, cur, w) =
      (case putItem env ?w1 ?item of
         Some e \<Rightarrow> (Some e, (processed, cur, ?w1))
       | None \<Rightarrow> (None, (processed @ [fname ?item], row_num line,
                        ?w1\<lparr>table := table_put (table ?w1) ?item\<rparr>)))"
    using assms(1) dup job chunks by (simp add: forBody_def Let_def split: option.split)
  with assms(2) have put: "putItem env ?w1 ?item = None"
    by (auto split: option.splits)
  then have numbers: "ifn ?item \<noteq> NaN \<and> sz ?item \<noteq> NaN \<and> cc ?item \<noteq> NaN"
    by (simp only: putItem_None_iff) simp
  from body put assms(2) have "processed' = processed @ [fname ?item]" "cur' = row_num line"
    "w' = ?w1\<lparr>table := table_put (table ?w1) ?item\<rparr>"
    by auto
  moreover have "duplicate \<longleftrightarrow> ?base \<in> set processed \<or> filenameExists env w ?base = Inr True"
    using dup by (auto split: if_splits)
  ultimately have "aid ?item = archiveid line \<and> ifn ?item = row_num line \<and> pid ?item = p
           \<and> sz ?item = size_col line \<and> calculateNumberOfChunks (size_col line) = Inr (cc ?item)
           \<and> rc ?item = 0
           \<and> ifn ?item \<noteq> NaN \<and> sz ?item \<noteq> NaN \<and> cc ?item \<noteq> NaN
           \<and> glacier_initiateJob env w (archiveid line) = Inr (jobId ?item)
           \<and> processed' = processed @ [fname ?item]
           \<and> fname ?item =
               (if ?base \<in> set processed \<or> filenameExists env w ?base = Inr True
                then ?base @ ''-'' @ creationdate line else ?base)
           \<and> cur' = row_num line
           \<and> jobs w' = jobs w @ [archiveid line]
           \<and> table w' = table_put (table w) ?item"
    using job chunks numbers by simp
  then show ?thesis by blast
qed

lemma forBody_failed:
  assumes "forBody env p line (processed, cur, w) = (Some e, (processed', cur', w'))"
  shows "\<not> js_le (row_num line) cur \<and> processed' = processed \<and> cur' = cur
       \<and> table w' = table w
       \<and> (jobs w' = jobs w \<or> jobs w' = jobs w @ [archiveid line])"
  using assms
  by (auto simp: forBody_def Let_def split: sum.splits option.splits if_splits)

lemma forBody_error_is_external:
  assumes "forBody env p line (processed, cur, w) = (Some e, st')"
  shows "(\<exists>f. dynamodb_query_name_index env w f = Inl e)
       \<or> glacier_initiateJob env w (archiveid line) = Inl e
       \<or> (\<exists>w1 item. putItem env w1 item = Some e)"
  using assms
  by (auto simp: forBody_def Let_def filenameExists_def calculateNumberOfChunks_def
           split: sum.splits option.splits if_splits)

lemma js_le_trans: "js_le a b \<Longrightarrow> js_le b c \<Longrightarrow> js_le a c"
  by (cases a; cases b; cases c) simp_all

lemma js_le_total: "a \<noteq> NaN \<Longrightarrow> b \<noteq> NaN \<Longrightarrow> \<not> js_le a b \<Longrightarrow> js_le b a"
  by (cases a; cases b) simp_all

lemma js_le_number: "js_le a b \<Longrightarrow> a \<noteq> NaN \<and> b \<noteq> NaN"
  by (cases a; cases b) simp_all

text \<open>
  The cursor of the loop never goes back, and stays a number once it is one: a row whose
  number is \<open>NaN\<close> is refused by the store before the cursor is set to it.
\<close>

lemma forBody_cursor_grows:
  assumes "forBody env p line (processed, cur, w) = (r, (processed', cur', w'))"
    and "js_le cursor cur"
  shows "js_le cursor cur'"
proof (cases r)
  case (Some e)
  with assms show ?thesis
    using forBody_failed by blast
next
  case None
  show ?thesis
  proof (cases "js_le (row_num line) cur")
    case True
    with assms None show ?thesis
      by (simp add: forBody_skip)
  next
    case False
    from assms(1) None
    have "forBody env p line (processed, cur, w) = (None, (processed', cur', w'))"
      by simp
    from forBody_written [OF False this]
    have "cur' = row_num line" "row_num line \<noteq> NaN"
      by auto
    moreover have "cur \<noteq> NaN"
      using assms(2) js_le_number by blast
    ultimately have "js_le cur cur'"
      using False by (simp add: js_le_total)
    with assms(2) show ?thesis
      by (rule js_le_trans)
  qed
qed

lemma forLines_skip_processed:
  assumes "js_le cursor cur"
  shows "forLines env p (filter (\<lambda>l. \<not> js_le (row_num l) cursor) lines) (processed, cur, w) =
         forLines env p lines (processed, cur, w)"
  using assms
proof (induction lines arbitrary: processed cur w)
  case Nil
  then show ?case by simp
next
  case (Cons line lines)
  show ?case
  proof (cases "js_le (row_num line) cursor")
    case True
    then have "js_le (row_num line) cur"
      using Cons.prems by (rule js_le_trans)
    then have "forBody env p line (processed, cur, w) = (None, (processed, cur, w))"
      by (rule forBody_skip)
    with True Cons show ?thesis by simp
  next
    case False
    obtain r processed' cur' w' where body:
      "forBody env p line (processed, cur, w) = (r, (processed', cur', w'))"
      by (metis prod_cases3 surj_pair)
    show ?thesis
    proof (cases r)
      case (Some e)
      with body False show ?thesis by simp
    next
      case None
      have "js_le cursor cur'"
        using body Cons.prems by (rule forBody_cursor_grows)
      then have "forLines env p (filter (\<lambda>l. \<not> js_le (row_num l) cursor) lines) (processed', cur', w') =
         forLines env p lines (processed', cur', w')"
        by (rule Cons.IH)
      with body None False show ?thesis by simp
    qed
  qed
qed

lemma forLines_skip:
  "forLines env p lines (processed, cursor, w) =
   forLines env p (filter (\<lambda>l. \<not> js_le (row_num l) cursor) lines) (processed, cursor, w)"
proof (cases cursor)
  case NaN
  then have "filter (\<lambda>l. \<not> js_le (row_num l) cursor) lines = lines"
    by simp
  then show ?thesis by simp
next
  case (Num c)
  then have "js_le cursor cursor" by simp
  then show ?thesis
    by (simp add: forLines_skip_processed)
qed

lemma set_table_put: "set (table_put t item) \<subseteq> insert item (set t)"
  by (auto simp: table_put_def)

lemma not_le_above:
  assumes "\<not> js_le x cur" and "cursor = NaN \<or> js_le cursor cur"
  shows "\<not> js_le x cursor"
  using assms by (cases x; cases cur; cases cursor) auto

lemma forLines_effects:
  assumes "forLines env p lines (processed, cur, w) = (r, (processed', cur', w'))"
    and "cursor = NaN \<or> js_le cursor cur"
  shows "(\<forall>item\<in>set (table w'). item \<in> set (table w) \<or> \<not> js_le (ifn item) cursor)
       \<and> (\<exists>ls. jobs w' = jobs w @ map archiveid ls
              \<and> (\<forall>l\<in>set ls. l \<in> set lines \<and> \<not> js_le (row_num l) cursor))"
  using assms
proof (induction lines arbitrary: processed cur w)
  case Nil
  then have "jobs w' = jobs w @ map archiveid ([] :: jsnum row list)" "w' = w"
    by simp_all
  then show ?case by (metis empty_iff list.set(1))
next
  case (Cons line lines)
  obtain r1 processed1 cur1 w1 where body:
    "forBody env p line (processed, cur, w) = (r1, (processed1, cur1, w1))"
    by (metis prod_cases3 surj_pair)
  have step: "(\<forall>item\<in>set (table w1). item \<in> set (table w) \<or> \<not> js_le (ifn item) cursor)
      \<and> (jobs w1 = jobs w \<or> (jobs w1 = jobs w @ [archiveid line] \<and> \<not> js_le (row_num line) cursor))
      \<and> (cursor = NaN \<or> js_le cursor cur1)"
  proof (cases r1)
    case (Some e)
    from body Some
    have "forBody env p line (processed, cur, w) = (Some e, (processed1, cur1, w1))"
      by simp
    from forBody_failed [OF this]
    have "\<not> js_le (row_num line) cur" "cur1 = cur" "table w1 = table w"
      "jobs w1 = jobs w \<or> jobs w1 = jobs w @ [archiveid line]"
      by simp_all
    moreover from this(1) Cons.prems(2) have "\<not> js_le (row_num line) cursor"
      by (rule not_le_above)
    ultimately show ?thesis
      using Cons.prems(2) by auto
  next
    case None
    show ?thesis
    proof (cases "js_le (row_num line) cur")
      case True
      with body None have "w1 = w" "cur1 = cur"
        by (simp_all add: forBody_skip)
      with Cons.prems(2) show ?thesis by simp
    next
      case False
      from body None
      have "forBody env p line (processed, cur, w) = (None, (processed1, cur1, w1))"
        by simp
      from forBody_written [OF False this]
      obtain item where item: "ifn item = row_num line" "cur1 = row_num line"
        "jobs w1 = jobs w @ [archiveid line]" "table w1 = table_put (table w) item"
        by blast
      have above: "\<not> js_le (row_num line) cursor"
        using False Cons.prems(2) by (rule not_le_above)
      have "cursor = NaN \<or> js_le cursor cur1"
      proof (cases "cursor = NaN")
        case True
        then show ?thesis by simp
      next
        case False
        with Cons.prems(2) have "js_le cursor cur" by simp
        with body have "js_le cursor cur1"
          by (rule forBody_cursor_grows)
        then show ?thesis by simp
      qed
      moreover have "\<forall>r\<in>set (table w1). r \<in> set (table w) \<or> \<not> js_le (ifn r) cursor"
        using item above set_table_put [of "table w" item] by auto
      ultimately show ?thesis
        using item above by simp
    qed
  qed
  show ?case
  proof (cases r1)
    case (Some e)
    with body Cons.prems(1) have "w' = w1"
      by simp
    with step have tab: "\<forall>item\<in>set (table w'). item \<in> set (table w) \<or> \<not> js_le (ifn item) cursor"
      and "jobs w' = jobs w \<or> (jobs w' = jobs w @ [archiveid line] \<and> \<not> js_le (row_num line) cursor)"
      by simp_all
    then consider "jobs w' = jobs w @ map archiveid ([] :: jsnum row list)"
      | "jobs w' = jobs w @ map archiveid [line]" "\<not> js_le (row_num line) cursor"
      by auto
    then have "\<exists>ls. jobs w' = jobs w @ map archiveid ls
              \<and> (\<forall>l\<in>set ls. l \<in> set (line # lines) \<and> \<not> js_le (row_num l) cursor)"
    proof cases
      case 1
      then show ?thesis by (metis empty_iff list.set(1))
    next
      case 2
      then have "\<forall>l\<in>set [line]. l \<in> set (line # lines) \<and> \<not> js_le (row_num l) cursor"
        by simp
      with 2(1) show ?thesis by blast
    qed
    with tab show ?thesis by simp
  next
    case None
    with body Cons.prems(1) have rest: "forLines env p lines (processed1, cur1, w1) = (r, (processed', cur', w'))"
      by simp
    from step have inv: "cursor = NaN \<or> js_le cursor cur1"
      by simp
    from Cons.IH [OF rest inv]
    obtain ls where tab': "\<forall>item\<in>set (table w'). item \<in> set (table w1) \<or> \<not> js_le (ifn item) cursor"
      and ls: "jobs w' = jobs w1 @ map archiveid ls"
        "\<forall>l\<in>set ls. l \<in> set lines \<and> \<not> js_le (row_num l) cursor"
      by blast
    from tab' step have tab: "\<forall>item\<in>set (table w'). item \<in> set (table w) \<or> \<not> js_le (ifn item) cursor"
      by blast
    from step consider "jobs w1 = jobs w"
      | "jobs w1 = jobs w @ [archiveid line]" "\<not> js_le (row_num line) cursor"
      by auto
    then have "\<exists>ks. jobs w' = jobs w @ map archiveid ks
              \<and> (\<forall>l\<in>set ks. l \<in> set (line # lines) \<and> \<not> js_le (row_num l) cursor)"
    proof cases
      case 1
      with ls have "jobs w' = jobs w @ map archiveid ls"
        "\<forall>l\<in>set ls. l \<in> set (line # lines) \<and> \<not> js_le (row_num l) cursor"
        by simp_all
      then show ?thesis by blast
    next
      case 2
      with ls have "jobs w' = jobs w @ map archiveid (line # ls)"
        "\<forall>l\<in>set (line # ls). l \<in> set (line # lines) \<and> \<not> js_le (row_num l) cursor"
        by simp_all
      then show ?thesis by blast
    qed
    with tab show ?thesis by simp
  qed
qed

lemma forLines_three_photos:
  "forLines (answering_env sts evs) 7 [
       \<lparr>row_num = Num 1, size_col = Num 100, archiveid = ''A1'', sha256treehash = ''h'',
        archivedescription = ''photo'', creationdate = ''d''\<rparr>,
       \<lparr>row_num = Num 2, size_col = Num 100, archiveid = ''A2'', sha256treehash = ''h'',
        archivedescription = ''photo'', creationdate = ''d''\<rparr>,
       \<lparr>row_num = Num 3, size_col = Num 4294967297, archiveid = ''A3'', sha256treehash = ''h'',
        archivedescription = ''photo'', creationdate = ''d''\<rparr>]
     ([], Num 0, nothing_recorded) =
   (None, [''photo'', ''photo-d'', ''photo-d''], Num 3,
    \<lparr>table = [
       \<lparr>aid = ''A1'', jobId = ''job-A1'', ifn = Num 1, pid = 7, sha = ''h'', sz = Num 100,
        cdt = ''2021-01-01T00:00:00Z'', descr = ''photo'', fname = ''photo'', cc = Num 1, rc = 0\<rparr>,
       \<lparr>aid = ''A2'', jobId = ''job-A2'', ifn = Num 2, pid = 7, sha = ''h'', sz = Num 100,
        cdt = ''2021-01-01T00:00:00Z'', descr = ''photo'', fname = ''photo-d'', cc = Num 1, rc = 0\<rparr>,
       \<lparr>aid = ''A3'', jobId = ''job-A3'', ifn = Num 3, pid = 7, sha = ''h'', sz = Num 4294967297,
        cdt = ''2021-01-01T00:00:00Z'', descr = ''photo'', fname = ''photo-d'', cc = Num 2, rc = 0\<rparr>],
     jobs = [''A1'', ''A2'', ''A3'']\<rparr>)"
  by (simp add: forBody_eval nothing_recorded_def)

lemma handler_three_photos:
  "handler (answering_env [''QUEUED'', ''SUCCEEDED''] three_photos) nothing_recorded
      \<lparr>nextPartition = 7, maxPartition = 9\<rparr> =
   (Resolved \<lparr>nextPartition = 8, maxPartition = 9\<rparr>, \<lparr>nextPartition = 8, maxPartition = 9\<rparr>,
    \<lparr>table = [
       \<lparr>aid = ''A1'', jobId = ''job-A1'', ifn = Num 1, pid = 7, sha = ''h'', sz = Num 100,
        cdt = ''2021-01-01T00:00:00Z'', descr = ''photo'', fname = ''photo'', cc = Num 1, rc = 0\<rparr>,
       \<lparr>aid = ''A2'', jobId = ''job-A2'', ifn = Num 2, pid = 7, sha = ''h'', sz = Num 100,
        cdt = ''2021-01-01T00:00:00Z'', descr = ''photo'', fname = ''photo-d'', cc = Num 1, rc = 0\<rparr>,
       \<lparr>aid = ''A3'', jobId = ''job-A3'', ifn = Num 3, pid = 7, sha = ''h'', sz = Num 4294967297,
        cdt = ''2021-01-01T00:00:00Z'', descr = ''photo'', fname = ''photo-d'', cc = Num 2, rc = 0\<rparr>],
     jobs = [''A1'', ''A2'', ''A3'']\<rparr>)"
  by (simp add: handler_def cursor_nothing_recorded readAthenaPartition_answering
      readResultsCSV_three_photos forLines_three_photos js_plus_one_safe Let_def
      del: forLines.simps)

text \<open>
  C2. A row whose row number is at most the cursor read at the start of the invocation has
  no effect. The loop ends with the same result and leaves the same world (the same jobs
  submitted, the same items in the table) as on the input without these rows; every item
  that the loop writes has a row number above the cursor, and every job it submits is for a
  line above the cursor; and the invocation is the one that the rows above the cursor alone
  would give.
\<close>

theorem rows_up_to_cursor_have_no_effect:
  "forLines env p lines (processed, cursor, w) =
     forLines env p (filter (\<lambda>l. \<not> js_le (row_num l) cursor) lines) (processed, cursor, w)
   \<and> (forLines env p lines (processed, cursor, w) = (r, (processed', cur', w')) \<longrightarrow>
        (\<forall>item\<in>set (table w'). item \<in> set (table w) \<or> \<not> js_le (ifn item) cursor)
        \<and> (\<exists>ls. jobs w' = jobs w @ map archiveid ls
               \<and> (\<forall>l\<in>set ls. l \<in> set lines \<and> \<not> js_le (row_num l) cursor)))
   \<and> (getPartitionMaxProcessedFileNumber env w (nextPartition payload) = Inr cursor
        \<and> readAthenaPartition env (nextPartition payload) = Some (Inr key)
        \<and> readResultsCSV env key = Resolved lines \<longrightarrow>
       handler env w payload =
         (case forLines env (nextPartition payload)
                 (filter (\<lambda>l. \<not> js_le (row_num l) cursor) lines) ([], cursor, w) of
            (Some e, (_, _, w'')) \<Rightarrow> (Rejected e, payload, w'')
          | (None, (_, _, w'')) \<Rightarrow>
              (Resolved (payload\<lparr>nextPartition := js_plus (nextPartition payload) 1\<rparr>),
               payload\<lparr>nextPartition := js_plus (nextPartition payload) 1\<rparr>, w'')))"
proof -
  have loop: "forLines env p lines (processed, cursor, w) =
     forLines env p (filter (\<lambda>l. \<not> js_le (row_num l) cursor) lines) (processed, cursor, w)"
    by (rule forLines_skip)
  have effects: "forLines env p lines (processed, cursor, w) = (r, (processed', cur', w')) \<longrightarrow>
        (\<forall>item\<in>set (table w'). item \<in> set (table w) \<or> \<not> js_le (ifn item) cursor)
        \<and> (\<exists>ls. jobs w' = jobs w @ map archiveid ls
               \<and> (\<forall>l\<in>set ls. l \<in> set lines \<and> \<not> js_le (row_num l) cursor))"
  proof
    assume run: "forLines env p lines (processed, cursor, w) = (r, (processed', cur', w'))"
    have "cursor = NaN \<or> js_le cursor cursor"
      by (cases cursor) simp_all
    with run show "(\<forall>item\<in>set (table w'). item \<in> set (table w) \<or> \<not> js_le (ifn item) cursor)
        \<and> (\<exists>ls. jobs w' = jobs w @ map archiveid ls
               \<and> (\<forall>l\<in>set ls. l \<in> set lines \<and> \<not> js_le (row_num l) cursor))"
      by (rule forLines_effects)
  qed
  have invocation: "getPartitionMaxProcessedFileNumber env w (nextPartition payload) = Inr cursor
        \<and> readAthenaPartition env (nextPartition payload) = Some (Inr key)
        \<and> readResultsCSV env key = Resolved lines \<longrightarrow>
       handler env w payload =
         (case forLines env (nextPartition payload)
                 (filter (\<lambda>l. \<not> js_le (row_num l) cursor) lines) ([], cursor, w) of
            (Some e, (_, _, w'')) \<Rightarrow> (Rejected e, payload, w'')
          | (None, (_, _, w'')) \<Rightarrow>
              (Resolved (payload\<lparr>nextPartition := js_plus (nextPartition payload) 1\<rparr>),
               payload\<lparr>nextPartition := js_plus (nextPartition payload) 1\<rparr>, w''))"
    by (auto simp: handler_def Let_def forLines_skip [symmetric] split: prod.splits option.splits)
  from loop effects invocation show ?thesis
    by (intro conjI)
qed

theorem rows_up_to_cursor_have_no_effect_witness:
  "handler (answering_env [''QUEUED'', ''SUCCEEDED''] three_photos) two_partitions
      \<lparr>nextPartition = 7, maxPartition = 9\<rparr> =
   (Resolved \<lparr>nextPartition = 8, maxPartition = 9\<rparr>, \<lparr>nextPartition = 8, maxPartition = 9\<rparr>,
    \<lparr>table = table two_partitions @
       [\<lparr>aid = ''A3'', jobId = ''job-A3'', ifn = Num 3, pid = 7, sha = ''h'',
         sz = Num 4294967297, cdt = ''2021-01-01T00:00:00Z'', descr = ''photo'',
         fname = ''photo-d'', cc = Num 2, rc = 0\<rparr>],
     jobs = jobs two_partitions @ [''A3'']\<rparr>)"
proof -
  let ?env = "answering_env [''QUEUED'', ''SUCCEEDED''] three_photos"
  let ?payload = "\<lparr>nextPartition = 7, maxPartition = 9\<rparr>"
  let ?l1 = "\<lparr>row_num = Num 1, size_col = Num 100, archiveid = ''A1'', sha256treehash = ''h'',
        archivedescription = ''photo'', creationdate = ''d''\<rparr>"
  let ?l2 = "\<lparr>row_num = Num 2, size_col = Num 100, archiveid = ''A2'', sha256treehash = ''h'',
        archivedescription = ''photo'', creationdate = ''d''\<rparr>"
  let ?l3 = "\<lparr>row_num = Num 3, size_col = Num 4294967297, archiveid = ''A3'',
        sha256treehash = ''h'', archivedescription = ''photo'', creationdate = ''d''\<rparr>"
  have cursor: "getPartitionMaxProcessedFileNumber ?env two_partitions (nextPartition ?payload) =
      Inr (Num 2)"
    by (simp add: cursor_two_partitions)
  have query: "readAthenaPartition ?env (nextPartition ?payload) = Some (Inr ''results/q1.csv'')"
    by (rule readAthenaPartition_answering)
  have lines: "readResultsCSV ?env ''results/q1.csv'' = Resolved [?l1, ?l2, ?l3]"
    by (rule readResultsCSV_three_photos)
  have above: "filter (\<lambda>l. \<not> js_le (row_num l) (Num 2)) [?l1, ?l2, ?l3] = [?l3]"
    by simp
  have "forLines ?env 7 [?l3] ([], Num 2, two_partitions) =
      (None, [''photo-d''], Num 3,
       \<lparr>table = table two_partitions @
          [\<lparr>aid = ''A3'', jobId = ''job-A3'', ifn = Num 3, pid = 7, sha = ''h'',
            sz = Num 4294967297, cdt = ''2021-01-01T00:00:00Z'', descr = ''photo'',
            fname = ''photo-d'', cc = Num 2, rc = 0\<rparr>],
        jobs = jobs two_partitions @ [''A3'']\<rparr>)"
    by (simp add: forBody_eval two_partitions_def recorded_def)
  with rows_up_to_cursor_have_no_effect [where env = ?env and w = two_partitions
      and payload = ?payload and cursor = "Num 2" and key = "''results/q1.csv''"
      and lines = "[?l1, ?l2, ?l3]" and p = 7 and processed = "[]"] cursor query lines above
  show ?thesis
    by (simp add: js_plus_one_safe)
qed

lemma forBody_duplicate_photo:
  "forBody (answering_env [] []) 7 (onData (csv_line ''3'' ''100'' ''A3'' ''photo'' ''d''))
     ([], Num 2, two_partitions) =
   (None, [''photo-d''], Num 3,
    two_partitions\<lparr>jobs := jobs two_partitions @ [''A3''],
      table := table two_partitions @
        [\<lparr>aid = ''A3'', jobId = ''job-A3'', ifn = Num 3, pid = 7, sha = ''h'', sz = Num 100,
          cdt = ''2021-01-01T00:00:00Z'', descr = ''photo'', fname = ''photo-d'', cc = Num 1,
          rc = 0\<rparr>]\<rparr>)"
  by (simp add: forBody_eval onData_def csv_line_def parseInt_eval two_partitions_def recorded_def)

lemma forBody_second_dog:
  "forBody (answering_env [] []) 7 (onData (csv_line ''4'' ''100'' ''A4'' ''dog'' ''d''))
     ([''dog''], Num 3, two_partitions) =
   (None, [''dog'', ''dog-d''], Num 4,
    two_partitions\<lparr>jobs := jobs two_partitions @ [''A4''],
      table := table two_partitions @
        [\<lparr>aid = ''A4'', jobId = ''job-A4'', ifn = Num 4, pid = 7, sha = ''h'', sz = Num 100,
          cdt = ''2021-01-01T00:00:00Z'', descr = ''dog'', fname = ''dog-d'', cc = Num 1,
          rc = 0\<rparr>]\<rparr>)"
  by (simp add: forBody_eval onData_def csv_line_def parseInt_eval two_partitions_def recorded_def)

lemma forBody_new_dog:
  "forBody (answering_env [] []) 7 (onData (csv_line ''3'' ''100'' ''A3'' ''dog'' ''d''))
     ([], Num 2, two_partitions) =
   (None, [''dog''], Num 3,
    two_partitions\<lparr>jobs := jobs two_partitions @ [''A3''],
      table := table two_partitions @
        [\<lparr>aid = ''A3'', jobId = ''job-A3'', ifn = Num 3, pid = 7, sha = ''h'', sz = Num 100,
          cdt = ''2021-01-01T00:00:00Z'', descr = ''dog'', fname = ''dog'', cc = Num 1,
          rc = 0\<rparr>]\<rparr>)"
  by (simp add: forBody_eval onData_def csv_line_def parseInt_eval two_partitions_def recorded_def)

lemma handler_lagging_index:
  "handler (lagging_env [''QUEUED'', ''SUCCEEDED'']
              [Data (csv_line ''3'' ''100'' ''A3'' ''photo'' ''d''), End])
      two_partitions \<lparr>nextPartition = 7, maxPartition = 9\<rparr> =
   (Resolved \<lparr>nextPartition = 8, maxPartition = 9\<rparr>, \<lparr>nextPartition = 8, maxPartition = 9\<rparr>,
    \<lparr>table = table two_partitions @
       [\<lparr>aid = ''A3'', jobId = ''job-A3'', ifn = Num 3, pid = 7, sha = ''h'', sz = Num 100,
         cdt = ''2021-01-01T00:00:00Z'', descr = ''photo'', fname = ''photo'', cc = Num 1,
         rc = 0\<rparr>],
     jobs = jobs two_partitions @ [''A3'']\<rparr>)"
proof -
  let ?events = "[Data (csv_line ''3'' ''100'' ''A3'' ''photo'' ''d''), End]"
  let ?env = "lagging_env [''QUEUED'', ''SUCCEEDED''] ?events"
  let ?line = "\<lparr>row_num = Num 3, size_col = Num 100, archiveid = ''A3'', sha256treehash = ''h'',
        archivedescription = ''photo'', creationdate = ''d''\<rparr>"
  have cursor: "getPartitionMaxProcessedFileNumber ?env two_partitions 7 = Inr (Num 2)"
    using cursor_two_partitions [of "[''QUEUED'', ''SUCCEEDED'']" ?events]
    by (simp add: getPartitionMaxProcessedFileNumber_def lagging_env_def answering_env_def)
  have query: "readAthenaPartition ?env 7 = Some (Inr ''results/q1.csv'')"
  proof -
    have "pollQueryExecution ?env ''q1'' 0 = Some (Inr ())"
      by (rule poll_succeeded [where k = 1]) (simp_all add: lagging_env_def answering_env_def)
    then show ?thesis
      by (simp add: readAthenaPartition_def lagging_env_def answering_env_def)
  qed
  have lines: "readResultsCSV ?env ''results/q1.csv'' = Resolved [?line]"
    by (simp add: readResultsCSV_def lagging_env_def answering_env_def csv_line_def onData_def
        parseInt_eval)
  have loop: "forLines ?env 7 [?line] ([], Num 2, two_partitions) =
      (None, [''photo''], Num 3,
       \<lparr>table = table two_partitions @
          [\<lparr>aid = ''A3'', jobId = ''job-A3'', ifn = Num 3, pid = 7, sha = ''h'', sz = Num 100,
            cdt = ''2021-01-01T00:00:00Z'', descr = ''photo'', fname = ''photo'', cc = Num 1,
            rc = 0\<rparr>],
        jobs = jobs two_partitions @ [''A3'']\<rparr>)"
    by (simp add: forBody_eval lagging_env_def two_partitions_def recorded_def)
  show ?thesis
    by (simp add: handler_def cursor query lines loop js_plus_one_safe Let_def del: forLines.simps)
qed

text \<open>
  C6. The claim: the recorded name gets the suffix when the base name is among the names
  assigned earlier in the invocation or a persisted record with that name exists, and is
  the base name otherwise. The table holds a record named \<open>photo\<close>, but the name index lags
  and reports none: the new record is named \<open>photo\<close> too.
\<close>

theorem lagging_index_counterexample:
  "map (\<lambda>r. (aid r, fname r))
     (table (snd (snd (handler (lagging_env [''QUEUED'', ''SUCCEEDED'']
                                  [Data (csv_line ''3'' ''100'' ''A3'' ''photo'' ''d''), End])
        two_partitions \<lparr>nextPartition = 7, maxPartition = 9\<rparr>)))) =
   [(''A1'', ''photo''), (''B1'', ''cat''), (''A2'', ''photo-d''), (''A3'', ''photo'')]"
  unfolding handler_lagging_index by (simp add: two_partitions_def recorded_def)

text \<open>
  C6, as the code has it: for every row that is processed and recorded, the recorded name
  is the base name followed by \<open>-\<close> and the creation date when the base name is among the
  names assigned earlier in the invocation, or the lookup of \<open>filenameExists\<close> on the name
  index reports a record with that name (a count other than 0); otherwise it is the base
  name. When the lookup is answered from the table, the second condition is that a record
  with that name exists in the table.
\<close>

theorem resolved_name_suffix_on_duplicate:
  assumes "\<not> js_le (row_num line) cur"
    and "forBody env p line (processed, cur, w) = (None, (processed', cur', w'))"
  shows "\<exists>item. table w' = table_put (table w) item
           \<and> aid item = archiveid line
           \<and> processed' = processed @ [fname item]
           \<and> fname item =
               (if parseFileName env (archiveid line) (archivedescription line) \<in> set processed
                   \<or> (\<exists>result. dynamodb_query_name_index env w
                                 (parseFileName env (archiveid line) (archivedescription line))
                               = Inr result \<and> Count result \<noteq> 0)
                then parseFileName env (archiveid line) (archivedescription line) @ ''-''
                       @ creationdate line
                else parseFileName env (archiveid line) (archivedescription line))
           \<and> (dynamodb_query_name_index env w
                  (parseFileName env (archiveid line) (archivedescription line))
                = Inr (name_index_query (table w)
                        (parseFileName env (archiveid line) (archivedescription line))) \<longrightarrow>
               fname item =
                 (if parseFileName env (archiveid line) (archivedescription line) \<in> set processed
                     \<or> (\<exists>r\<in>set (table w).
                           fname r = parseFileName env (archiveid line) (archivedescription line))
                  then parseFileName env (archiveid line) (archivedescription line) @ ''-''
                         @ creationdate line
                  else parseFileName env (archiveid line) (archivedescription line)))"
proof -
  let ?base = "parseFileName env (archiveid line) (archivedescription line)"
  from forBody_written [OF assms]
  obtain item where item: "table w' = table_put (table w) item" "aid item = archiveid line"
    "processed' = processed @ [fname item]"
    "fname item = (if ?base \<in> set processed \<or> filenameExists env w ?base = Inr True
                   then ?base @ ''-'' @ creationdate line else ?base)"
    by blast
  have answered: "?base \<notin> set processed \<Longrightarrow> \<exists>result. dynamodb_query_name_index env w ?base = Inr result"
    using assms by (auto simp: forBody_def filenameExists_def Let_def split: sum.splits)
  have lookup: "filenameExists env w ?base = Inr True \<longleftrightarrow>
      (\<exists>result. dynamodb_query_name_index env w ?base = Inr result \<and> Count result \<noteq> 0)"
    by (auto simp: filenameExists_def split: sum.splits)
  have counted: "Count (name_index_query (table w) ?base) \<noteq> 0 \<longleftrightarrow>
      (\<exists>r\<in>set (table w). fname r = ?base)"
    by (auto simp: name_index_query_def filter_empty_conv)
  have first: "fname item =
      (if ?base \<in> set processed
          \<or> (\<exists>result. dynamodb_query_name_index env w ?base = Inr result \<and> Count result \<noteq> 0)
       then ?base @ ''-'' @ creationdate line else ?base)"
    using item(4) lookup by simp
  have second: "dynamodb_query_name_index env w ?base = Inr (name_index_query (table w) ?base) \<longrightarrow>
      fname item =
        (if ?base \<in> set processed \<or> (\<exists>r\<in>set (table w). fname r = ?base)
         then ?base @ ''-'' @ creationdate line else ?base)"
    using first counted by auto
  from item(1,2,3) first second show ?thesis
    by blast
qed

theorem resolved_name_suffix_on_duplicate_witness:
  "fst (snd (forBody (answering_env [] []) 7 (onData (csv_line ''3'' ''100'' ''A3'' ''dog'' ''d''))
          ([], Num 2, two_partitions))) = [''dog'']
   \<and> fst (snd (forBody (answering_env [] []) 7 (onData (csv_line ''4'' ''100'' ''A4'' ''dog'' ''d''))
          ([''dog''], Num 3, two_partitions))) = [''dog'', ''dog-d'']
   \<and> fst (snd (forBody (answering_env [] []) 7 (onData (csv_line ''3'' ''100'' ''A3'' ''photo'' ''d''))
          ([], Num 2, two_partitions))) = [''photo-d'']"
proof -
  let ?env = "answering_env [] []"
  have index: "dynamodb_query_name_index ?env two_partitions f =
      Inr (name_index_query (table two_partitions) f)" for f
    by (simp add: answering_env_def)
  have name: "parseFileName ?env (archiveid (onData (csv_line n s a d c)))
      (archivedescription (onData (csv_line n s a d c))) = d" for n s a d c
    by (simp add: answering_env_def onData_def csv_line_def)
  have date: "creationdate (onData (csv_line n s a d c)) = c" for n s a d c
    by (simp add: onData_def csv_line_def)
  have first: "fst (snd (forBody ?env 7 (onData (csv_line ''3'' ''100'' ''A3'' ''dog'' ''d''))
          ([], Num 2, two_partitions))) = [''dog'']"
  proof -
    let ?line = "onData (csv_line ''3'' ''100'' ''A3'' ''dog'' ''d'')"
    have not_skipped: "\<not> js_le (row_num ?line) (Num 2)"
      by (simp add: onData_def csv_line_def parseInt_eval)
    obtain processed' cur' w' where run:
      "forBody ?env 7 ?line ([], Num 2, two_partitions) = (None, (processed', cur', w'))"
      using forBody_new_dog by blast
    from resolved_name_suffix_on_duplicate [OF not_skipped run] index
    obtain item :: status_record where "processed' = [] @ [fname item]"
      and "fname item =
        (if parseFileName ?env (archiveid ?line) (archivedescription ?line) \<in> set []
            \<or> (\<exists>r\<in>set (table two_partitions).
                  fname r = parseFileName ?env (archiveid ?line) (archivedescription ?line))
         then parseFileName ?env (archiveid ?line) (archivedescription ?line) @ ''-''
                @ creationdate ?line
         else parseFileName ?env (archiveid ?line) (archivedescription ?line))"
      by blast
    then have "processed' = [''dog'']"
      by (simp add: name date two_partitions_def recorded_def)
    with run show ?thesis by simp
  qed
  have second: "fst (snd (forBody ?env 7 (onData (csv_line ''4'' ''100'' ''A4'' ''dog'' ''d''))
          ([''dog''], Num 3, two_partitions))) = [''dog'', ''dog-d'']"
  proof -
    let ?line = "onData (csv_line ''4'' ''100'' ''A4'' ''dog'' ''d'')"
    have not_skipped: "\<not> js_le (row_num ?line) (Num 3)"
      by (simp add: onData_def csv_line_def parseInt_eval)
    obtain processed' cur' w' where run:
      "forBody ?env 7 ?line ([''dog''], Num 3, two_partitions) = (None, (processed', cur', w'))"
      using forBody_second_dog by blast
    from resolved_name_suffix_on_duplicate [OF not_skipped run] index
    obtain item :: status_record where "processed' = [''dog''] @ [fname item]"
      and "fname item =
        (if parseFileName ?env (archiveid ?line) (archivedescription ?line) \<in> set [''dog'']
            \<or> (\<exists>r\<in>set (table two_partitions).
                  fname r = parseFileName ?env (archiveid ?line) (archivedescription ?line))
         then parseFileName ?env (archiveid ?line) (archivedescription ?line) @ ''-''
                @ creationdate ?line
         else parseFileName ?env (archiveid ?line) (archivedescription ?line))"
      by blast
    then have "processed' = [''dog'', ''dog-d'']"
      by (simp add: name date)
    with run show ?thesis by simp
  qed
  have third: "fst (snd (forBody ?env 7 (onData (csv_line ''3'' ''100'' ''A3'' ''photo'' ''d''))
          ([], Num 2, two_partitions))) = [''photo-d'']"
  proof -
    let ?line = "onData (csv_line ''3'' ''100'' ''A3'' ''photo'' ''d'')"
    have not_skipped: "\<not> js_le (row_num ?line) (Num 2)"
      by (simp add: onData_def csv_line_def parseInt_eval)
    obtain processed' cur' w' where run:
      "forBody ?env 7 ?line ([], Num 2, two_partitions) = (None, (processed', cur', w'))"
      using forBody_duplicate_photo by blast
    from resolved_name_suffix_on_duplicate [OF not_skipped run] index
    obtain item :: status_record where "processed' = [] @ [fname item]"
      and "fname item =
        (if parseFileName ?env (archiveid ?line) (archivedescription ?line) \<in> set []
            \<or> (\<exists>r\<in>set (table two_partitions).
                  fname r = parseFileName ?env (archiveid ?line) (archivedescription ?line))
         then parseFileName ?env (archiveid ?line) (archivedescription ?line) @ ''-''
                @ creationdate ?line
         else parseFileName ?env (archiveid ?line) (archivedescription ?line))"
      by blast
    then have "processed' = [''photo-d'']"
      by (simp add: name date two_partitions_def recorded_def)
    with run show ?thesis by simp
  qed
  from first second third show ?thesis
    by (intro conjI)
qed

text \<open>
  C7. The claim: in one sequential invocation, each new record's name differs from the name
  of every record that exists when it is written. Three rows with the same base name and
  the same creation date: the third record gets the name of the second.
\<close>

theorem resolved_name_collision_counterexample:
  "map (\<lambda>r. (aid r, fname r))
     (table (snd (snd (handler (answering_env [''QUEUED'', ''SUCCEEDED''] three_photos)
        nothing_recorded \<lparr>nextPartition = 7, maxPartition = 9\<rparr>)))) =
   [(''A1'', ''photo''), (''A2'', ''photo-d''), (''A3'', ''photo-d'')]"
  by (simp add: handler_three_photos)

text \<open>
  C7, as the code has it: a record written under its base name (no suffix) has a name
  that no earlier record of the invocation and no record of the table has, provided the
  name lookup is answered from the table. A name with the suffix is the base name followed
  by \<open>-\<close> and the creation date; it is not looked up again, and nothing is promised of it.
\<close>

theorem unsuffixed_name_is_new:
  assumes "\<not> js_le (row_num line) cur"
    and "forBody env p line (processed, cur, w) = (None, (processed', cur', w'))"
    and "dynamodb_query_name_index env w = (\<lambda>f. Inr (name_index_query (table w) f))"
  shows "\<exists>item. table w' = table_put (table w) item
           \<and> processed' = processed @ [fname item]
           \<and> (fname item = parseFileName env (archiveid line) (archivedescription line) \<longrightarrow>
                fname item \<notin> set processed \<and> (\<forall>r\<in>set (table w). fname r \<noteq> fname item))
           \<and> (fname item \<noteq> parseFileName env (archiveid line) (archivedescription line) \<longrightarrow>
                fname item = parseFileName env (archiveid line) (archivedescription line) @ ''-'' @ creationdate line)"
  using assms
  by (auto simp: forBody_def Let_def filenameExists_def name_index_query_def filter_empty_conv
           split: sum.splits option.splits if_splits)

theorem unsuffixed_name_is_new_witness:
  "\<not> js_le (row_num (onData (csv_line ''3'' ''100'' ''A3'' ''dog'' ''d''))) (Num 2)
   \<and> fst (snd (forBody (answering_env [] []) 7
          (onData (csv_line ''3'' ''100'' ''A3'' ''dog'' ''d'')) ([], Num 2, two_partitions))) =
       [''dog'']
   \<and> list_all (\<lambda>r. fname r \<noteq> ''dog'') (table two_partitions)"
proof -
  let ?line = "onData (csv_line ''3'' ''100'' ''A3'' ''dog'' ''d'')"
  have not_skipped: "\<not> js_le (row_num ?line) (Num 2)"
    by (simp add: onData_def csv_line_def parseInt_eval)
  have index: "dynamodb_query_name_index (answering_env [] []) two_partitions =
      (\<lambda>f. Inr (name_index_query (table two_partitions) f))"
    by (simp add: answering_env_def)
  have run: "forBody (answering_env [] []) 7 ?line ([], Num 2, two_partitions) =
      (None, ([''dog''], Num 3,
        two_partitions\<lparr>jobs := jobs two_partitions @ [''A3''],
          table := table two_partitions @
            [\<lparr>aid = ''A3'', jobId = ''job-A3'', ifn = Num 3, pid = 7, sha = ''h'', sz = Num 100,
              cdt = ''2021-01-01T00:00:00Z'', descr = ''dog'', fname = ''dog'', cc = Num 1,
              rc = 0\<rparr>]\<rparr>))"
    by (rule forBody_new_dog)
  from unsuffixed_name_is_new [OF not_skipped run index]
  obtain item :: status_record where "[''dog''] = [] @ [fname item]"
    and "fname item = parseFileName (answering_env [] []) (archiveid ?line) (archivedescription ?line)
      \<longrightarrow> fname item \<notin> set [] \<and> (\<forall>r\<in>set (table two_partitions). fname r \<noteq> fname item)"
    by blast
  moreover have "parseFileName (answering_env [] []) (archiveid ?line) (archivedescription ?line) =
      ''dog''"
    by (simp add: answering_env_def onData_def csv_line_def)
  ultimately have "\<forall>r\<in>set (table two_partitions). fname r \<noteq> ''dog''"
    by simp
  then have "list_all (\<lambda>r. fname r \<noteq> ''dog'') (table two_partitions)"
    by (simp add: list_all_iff)
  with run not_skipped show ?thesis
    by simp
qed









section \<open>Properties of the handler\<close>

text \<open>
  C3. If the query execution reaches a terminal state other than success (\<^verbatim>\<open>FAILED\<close>,
  \<^verbatim>\<open>CANCELLED\<close>, any state that is not \<^verbatim>\<open>QUEUED\<close>, \<^verbatim>\<open>RUNNING\<close> or \<^verbatim>\<open>SUCCEEDED\<close>), the
  invocation fails with the error thrown by the reader, no status record is created (the
  world is as before) and the payload is not changed.
\<close>

theorem failed_query_fails_invocation:
  assumes "getPartitionMaxProcessedFileNumber env w (nextPartition payload) = Inr cursor"
    and "athena_startQueryExecution env (nextPartition payload) = Inr q"
    and "\<forall>j<k. athena_getQueryExecution env q j = Inr ''QUEUED'' \<or>
             athena_getQueryExecution env q j = Inr ''RUNNING''"
    and "athena_getQueryExecution env q k = Inr state"
    and "state \<notin> {''QUEUED'', ''RUNNING'', ''SUCCEEDED''}"
  shows "handler env w payload = (Rejected (Thrown ''Athena exception''), payload, w)"
proof -
  have "readAthenaPartition env (nextPartition payload) = Some (Inl (Thrown ''Athena exception''))"
    using assms(2) poll_failed [OF assms(3,4,5)] by (simp add: readAthenaPartition_def)
  with assms(1) show ?thesis
    by (simp add: handler_def)
qed

theorem failed_query_fails_invocation_witness:
  "getPartitionMaxProcessedFileNumber (answering_env [''QUEUED'', ''FAILED''] three_photos)
     two_partitions 7 = Inr (Num 2)
   \<and> handler (answering_env [''QUEUED'', ''FAILED''] three_photos) two_partitions
        \<lparr>nextPartition = 7, maxPartition = 9\<rparr> =
      (Rejected (Thrown ''Athena exception''), \<lparr>nextPartition = 7, maxPartition = 9\<rparr>,
       two_partitions)"
proof -
  let ?env = "answering_env [''QUEUED'', ''FAILED''] three_photos"
  let ?payload = "\<lparr>nextPartition = 7, maxPartition = 9\<rparr>"
  have cursor: "getPartitionMaxProcessedFileNumber ?env two_partitions (nextPartition ?payload) =
      Inr (Num 2)"
    by (simp add: cursor_two_partitions)
  have start: "athena_startQueryExecution ?env (nextPartition ?payload) = Inr ''q1''"
    by (simp add: answering_env_def)
  have running: "\<forall>j<1. athena_getQueryExecution ?env ''q1'' j = Inr ''QUEUED'' \<or>
      athena_getQueryExecution ?env ''q1'' j = Inr ''RUNNING''"
    by (simp add: answering_env_def)
  have terminal: "athena_getQueryExecution ?env ''q1'' 1 = Inr ''FAILED''"
    by (simp add: answering_env_def)
  have other: "''FAILED'' \<notin> {''QUEUED'', ''RUNNING'', ''SUCCEEDED''}"
    by simp
  from failed_query_fails_invocation [OF cursor start running terminal other] cursor
  show ?thesis
    by simp
qed

text \<open>
  C5. The claim: when the handler completes, the payload it returns has \<open>nextPartition\<close>
  equal to the partition processed plus one. At partition \<open>2^53\<close> the sum \<^verbatim>\<open>pid + 1\<close> is
  rounded back to \<open>2^53\<close>: the handler returns the partition it was given.
\<close>

theorem next_partition_rounded_counterexample:
  "handler (answering_env [''QUEUED'', ''SUCCEEDED''] [End]) nothing_recorded
      \<lparr>nextPartition = 9007199254740992, maxPartition = 9007199254740994\<rparr> =
   (Resolved \<lparr>nextPartition = 9007199254740992, maxPartition = 9007199254740994\<rparr>,
    \<lparr>nextPartition = 9007199254740992, maxPartition = 9007199254740994\<rparr>, nothing_recorded)"
proof -
  have "readResultsCSV (answering_env [''QUEUED'', ''SUCCEEDED''] [End]) ''results/q1.csv'' =
      Resolved []"
    by (simp add: readResultsCSV_def answering_env_def)
  then show ?thesis
    by (simp add: handler_def cursor_nothing_recorded readAthenaPartition_answering
        js_plus_one_2_53 Let_def)
qed

text \<open>
  C5, as the code has it: when the handler completes, it returns the caller's payload with
  \<open>nextPartition\<close> set to the sum \<^verbatim>\<open>pid + 1\<close> of doubles, which is the partition processed
  plus one for every partition id below \<open>2^53\<close> in magnitude; every other field
  (\<open>maxPartition\<close> and the rest of the object) is unchanged, and the object returned is the
  caller's object.
\<close>

theorem handler_returns_next_partition:
  assumes "handler env w payload = (Resolved payload', object, w')"
  shows "payload' = payload\<lparr>nextPartition := js_plus (nextPartition payload) 1\<rparr>
       \<and> object = payload'
       \<and> maxPartition payload' = maxPartition payload
       \<and> payload.more payload' = payload.more payload
       \<and> (\<bar>nextPartition payload\<bar> < 2 ^ 53 \<longrightarrow>
            nextPartition payload' = nextPartition payload + 1)"
proof -
  from assms have "payload' = payload\<lparr>nextPartition := js_plus (nextPartition payload) 1\<rparr>"
    and "object = payload'"
    by (auto simp: handler_def Let_def
        split: sum.splits option.splits outcome.splits prod.splits)
  then show ?thesis
    by (simp add: js_plus_one_safe)
qed

theorem handler_returns_next_partition_witness:
  "\<bar>7 :: int\<bar> < 2 ^ 53
   \<and> fst (handler (answering_env [''QUEUED'', ''SUCCEEDED''] three_photos) nothing_recorded
          \<lparr>nextPartition = 7, maxPartition = 9\<rparr>) =
     Resolved \<lparr>nextPartition = 8, maxPartition = 9\<rparr>"
proof -
  obtain payload' object w' where run:
    "handler (answering_env [''QUEUED'', ''SUCCEEDED''] three_photos) nothing_recorded
       \<lparr>nextPartition = 7, maxPartition = 9\<rparr> = (Resolved payload', object, w')"
    using handler_three_photos by blast
  from handler_returns_next_partition [OF run]
  have "maxPartition payload' = 9" "payload.more payload' = ()" "nextPartition payload' = 8"
    by (simp_all add: js_plus_one_safe)
  then have "payload' = \<lparr>nextPartition = 8, maxPartition = 9\<rparr>"
    by (cases payload') simp
  with run show ?thesis
    by simp
qed

end
